theory Spec2Isabelle
  imports Complex_Main
begin

section \<open>Numbers and arrays\<close>

text \<open>
  The classifiers of \<^verbatim>\<open>fylearn/garules.py\<close> compute on numpy arrays of doubles.
  A double is modelled as an exact real number or one of the three special values of
  IEEE arithmetic; rounding, overflow of finite values and the sign of zero are not
  modelled (a zero divisor is taken as \<open>+0\<close>, which is what \<open>b - a\<close> yields for
  \<open>b = a\<close>). Rounding is added in the section on rounding, for the one question
  that depends on it.
\<close>

datatype fl = Fin real | PInf | NInf | NaN

datatype error = ValueError | IndexError | KeyError

fun fl_add :: "fl \<Rightarrow> fl \<Rightarrow> fl" where
  "fl_add NaN y = NaN"
| "fl_add x NaN = NaN"
| "fl_add (Fin a) (Fin b) = Fin (a + b)"
| "fl_add PInf NInf = NaN"
| "fl_add NInf PInf = NaN"
| "fl_add PInf y = PInf"
| "fl_add x PInf = PInf"
| "fl_add NInf y = NInf"
| "fl_add x NInf = NInf"

fun fl_sub :: "fl \<Rightarrow> fl \<Rightarrow> fl" where
  "fl_sub NaN y = NaN"
| "fl_sub x NaN = NaN"
| "fl_sub (Fin a) (Fin b) = Fin (a - b)"
| "fl_sub PInf PInf = NaN"
| "fl_sub NInf NInf = NaN"
| "fl_sub PInf y = PInf"
| "fl_sub NInf y = NInf"
| "fl_sub x PInf = NInf"
| "fl_sub x NInf = PInf"

fun fl_abs :: "fl \<Rightarrow> fl" where
  "fl_abs (Fin a) = Fin \<bar>a\<bar>"
| "fl_abs PInf = PInf"
| "fl_abs NInf = PInf"
| "fl_abs NaN = NaN"

text \<open>numpy's true division of doubles: no exception, \<open>x / 0\<close> is an infinity
  of the sign of \<open>x\<close> and \<open>0 / 0\<close> is NaN (a warning is printed at most).\<close>

fun fl_div :: "fl \<Rightarrow> fl \<Rightarrow> fl" where
  "fl_div NaN y = NaN"
| "fl_div x NaN = NaN"
| "fl_div (Fin a) (Fin b) =
     (if b = 0 then (if a = 0 then NaN else if 0 < a then PInf else NInf)
      else Fin (a / b))"
| "fl_div (Fin a) y = Fin 0"
| "fl_div PInf (Fin b) = (if b < 0 then NInf else PInf)"
| "fl_div NInf (Fin b) = (if b < 0 then PInf else NInf)"
| "fl_div x y = NaN"

text \<open>The comparison \<open>x <= y\<close> of doubles: false as soon as one side is NaN.\<close>

fun fl_le :: "fl \<Rightarrow> fl \<Rightarrow> bool" where
  "fl_le NaN y = False"
| "fl_le x NaN = False"
| "fl_le (Fin a) (Fin b) = (a \<le> b)"
| "fl_le NInf y = True"
| "fl_le x PInf = True"
| "fl_le x y = False"

text \<open>\<^verbatim>\<open>np.fmax\<close> and \<^verbatim>\<open>np.fmin\<close>: the maximum and minimum that ignore a NaN
  operand; \<^verbatim>\<open>np.nanmax\<close> and \<^verbatim>\<open>np.nanmin\<close> reduce a column with them.\<close>

definition fl_fmax :: "fl \<Rightarrow> fl \<Rightarrow> fl" where
  "fl_fmax x y = (if x = NaN then y else if y = NaN then x else if fl_le x y then y else x)"

definition fl_fmin :: "fl \<Rightarrow> fl \<Rightarrow> fl" where
  "fl_fmin x y = (if x = NaN then y else if y = NaN then x else if fl_le x y then x else y)"

text \<open>\<^verbatim>\<open>np.sum\<close> of a one-dimensional array.\<close>

definition fl_sum :: "fl list \<Rightarrow> fl" where
  "fl_sum xs = foldl fl_add (Fin 0) xs"

text \<open>A two-dimensional array (the result of \<^verbatim>\<open>array2d\<close>): its rows, and its number
  of columns, which numpy knows also when there is no row.\<close>

record ndarray =
  ncols :: nat
  rows :: "fl list list"

definition wf_array :: "ndarray \<Rightarrow> bool" where
  "wf_array X = (\<forall>r \<in> set (rows X). length r = ncols X)"

definition nrows :: "ndarray \<Rightarrow> nat" where
  "nrows X = length (rows X)"

text \<open>An elementwise operation of a two-dimensional array with a one-dimensional one
  (or with one of a single row, as \<^verbatim>\<open>np.array([c])\<close>), under numpy's broadcasting:
  the column counts agree or one of them is 1, otherwise ValueError.\<close>

definition bcast_row :: "(fl \<Rightarrow> fl \<Rightarrow> fl) \<Rightarrow> fl list \<Rightarrow> fl list \<Rightarrow> fl list" where
  "bcast_row f r v =
     (if length r = length v then map2 f r v
      else if length r = 1 then map (f (r ! 0)) v
      else map (\<lambda>x. f x (v ! 0)) r)"

definition broadcast2 :: "(fl \<Rightarrow> fl \<Rightarrow> fl) \<Rightarrow> ndarray \<Rightarrow> fl list \<Rightarrow> error + ndarray" where
  "broadcast2 f X v =
     (if ncols X = length v \<or> ncols X = 1 \<or> length v = 1
      then Inr \<lparr>ncols = (if ncols X = 1 then length v else ncols X),
                rows = map (\<lambda>r. bcast_row f r v) (rows X)\<rparr>
      else Inl ValueError)"

definition np_abs :: "ndarray \<Rightarrow> ndarray" where
  "np_abs X = X\<lparr>rows := map (map fl_abs) (rows X)\<rparr>"

text \<open>\<^verbatim>\<open>np.sum(A, 1)\<close> and \<^verbatim>\<open>np.sum(A)\<close>.\<close>

definition sum_axis1 :: "ndarray \<Rightarrow> fl list" where
  "sum_axis1 A = map fl_sum (rows A)"

definition sum_all :: "ndarray \<Rightarrow> fl" where
  "sum_all A = fl_sum (concat (rows A))"

text \<open>\<^verbatim>\<open>np.nanmax(X, 0)\<close> and \<^verbatim>\<open>np.nanmin(X, 0)\<close>: per column, over the entries that
  are not NaN (NaN for a column of NaN only); ValueError for an array without rows.\<close>

definition column :: "ndarray \<Rightarrow> nat \<Rightarrow> fl list" where
  "column X j = map (\<lambda>r. r ! j) (rows X)"

definition nanmax :: "ndarray \<Rightarrow> error + fl list" where
  "nanmax X =
     (if rows X = [] then Inl ValueError
      else Inr (map (\<lambda>j. foldl fl_fmax (hd (column X j)) (tl (column X j))) [0..<ncols X]))"

definition nanmin :: "ndarray \<Rightarrow> error + fl list" where
  "nanmin X =
     (if rows X = [] then Inl ValueError
      else Inr (map (\<lambda>j. foldl fl_fmin (hd (column X j)) (tl (column X j))) [0..<ncols X]))"

text \<open>\<^verbatim>\<open>np.argmin\<close> of one row, as numpy's loop for doubles runs it: the first NaN if
  there is one, otherwise the first position of the least value.\<close>

fun argmin_loop :: "fl \<Rightarrow> nat \<Rightarrow> nat \<Rightarrow> fl list \<Rightarrow> nat" where
  "argmin_loop mp mi i [] = mi"
| "argmin_loop mp mi i (x # xs) =
     (if \<not> fl_le mp x
      then (if x = NaN then i else argmin_loop x i (Suc i) xs)
      else argmin_loop mp mi (Suc i) xs)"

fun argmin :: "fl list \<Rightarrow> nat" where
  "argmin [] = 0"
| "argmin (x # xs) = (if x = NaN then 0 else argmin_loop x 0 1 xs)"


section \<open>The distance measure\<close>

text \<open>\<^verbatim>\<open>StoeanDistance(d).pairwise(X, c)\<close> is \<^verbatim>\<open>np.sum(np.abs(X - c) / self.d, 1)\<close>.
  The instance is its scale vector \<open>d\<close>. The single-model classifier passes
  \<^verbatim>\<open>np.array([c])\<close>, an array of one row, which broadcasts against \<open>X\<close> as \<open>c\<close> does.\<close>

definition pairwise :: "fl list \<Rightarrow> ndarray \<Rightarrow> fl list \<Rightarrow> error + fl list" where
  "pairwise d X c =
     (case broadcast2 fl_sub X c of
        Inl e \<Rightarrow> Inl e
      | Inr A \<Rightarrow>
          (case broadcast2 fl_div (np_abs A) d of
             Inl e \<Rightarrow> Inl e
           | Inr B \<Rightarrow> Inr (sum_axis1 B)))"

text \<open>\<^verbatim>\<open>stoean_f(X)\<close>: the distance measure scaled by the range of each column of \<open>X\<close>.\<close>

definition stoean_f :: "ndarray \<Rightarrow> error + fl list" where
  "stoean_f X =
     (case nanmax X of
        Inl e \<Rightarrow> Inl e
      | Inr b \<Rightarrow> (case nanmin X of Inl e \<Rightarrow> Inl e | Inr a \<Rightarrow> Inr (map2 fl_sub b a)))"

section \<open>The genetic algorithm engine\<close>

text \<open>
  Modelled from the spec: the module \<^verbatim>\<open>fylearn.ga\<close> (\<^verbatim>\<open>GeneticAlgorithm\<close>,
  \<^verbatim>\<open>helper_n_generations\<close> and \<^verbatim>\<open>best\<close>) is not part of the sources at hand. By
  sections 4.2 and 4.3 of the specification the engine is configured by a fitness
  function, an elitism count, a population size, a chromosome length and a mutation
  probability, draws from a pseudo-random source only, is advanced a fixed number of
  generations and then reports its best chromosome; an error of the fitness function
  reaches the caller. The classifiers therefore take the engine as a parameter: a
  function from the configuration, the number of generations and the state of the
  random source to the best chromosome (or an error) and the next state of the source.
  \<^verbatim>\<open>numpy.random.RandomState\<close> is a parameter in the same way: \<open>rng_seed\<close> builds
  the state from an integer seed, \<open>choice rs n k\<close> draws \<open>k\<close> indices below \<open>n\<close>.
\<close>

record ga_params =
  fitness_function :: "fl list \<Rightarrow> error + fl"
  elitism :: nat
  n_chromosomes :: nat
  n_genes :: nat
  p_mutation :: real

type_synonym 'r ga_engine = "ga_params \<Rightarrow> nat \<Rightarrow> 'r \<Rightarrow> (error + fl list) \<times> 'r"

type_synonym 'r rng_choice = "'r \<Rightarrow> nat \<Rightarrow> nat \<Rightarrow> nat list \<times> 'r"

section \<open>MultimodalEvolutionaryClassifier\<close>

text \<open>The attributes that \<^verbatim>\<open>fit\<close> stores: \<^verbatim>\<open>classes_\<close>, \<^verbatim>\<open>distance_\<close> (a
  \<^verbatim>\<open>StoeanDistance\<close>, given by its scale vector) and \<^verbatim>\<open>models_\<close>.\<close>

record 'l mec =
  mec_classes :: "'l list"
  mec_distance :: "fl list"
  mec_models :: "'l \<rightharpoonup> fl list"

text \<open>\<^verbatim>\<open>lambda c: np.sum(self.distance_.pairwise(X, np.array([c])))\<close>, the fitness of
  \<^verbatim>\<open>build_for_class\<close> and, under the name \<^verbatim>\<open>distance_sum\<close>, the score of \<^verbatim>\<open>predict\<close>.\<close>

definition distance_fitness :: "fl list \<Rightarrow> ndarray \<Rightarrow> fl list \<Rightarrow> error + fl" where
  "distance_fitness d X c =
     (case pairwise d X c of Inl e \<Rightarrow> Inl e | Inr v \<Rightarrow> Inr (fl_sum v))"

definition mec_build_for_class ::
  "'r ga_engine \<Rightarrow> nat \<Rightarrow> fl list \<Rightarrow> 'r \<Rightarrow> ndarray \<Rightarrow> (error + fl list) \<times> 'r" where
  "mec_build_for_class ga n_iterations d rs X =
     ga \<lparr>fitness_function = distance_fitness d X, elitism = 3, n_chromosomes = 100,
         n_genes = ncols X, p_mutation = 3 / 10\<rparr> n_iterations rs"

text \<open>\<^verbatim>\<open>np.unique(y)\<close>: the distinct labels in ascending order; \<^verbatim>\<open>X[y == c_value]\<close>:
  the rows of \<open>X\<close> whose label is \<open>c_value\<close>.\<close>

definition np_unique :: "('l::linorder) list \<Rightarrow> 'l list" where
  "np_unique y = sort (remdups y)"

definition select_rows :: "ndarray \<Rightarrow> 'l list \<Rightarrow> 'l \<Rightarrow> ndarray" where
  "select_rows X y c = X\<lparr>rows := map fst (filter (\<lambda>(r, l). l = c) (zip (rows X) y))\<rparr>"

fun mec_fit_loop ::
  "'r ga_engine \<Rightarrow> nat \<Rightarrow> fl list \<Rightarrow> ndarray \<Rightarrow> 'l list \<Rightarrow> ('l \<rightharpoonup> fl list) \<Rightarrow> 'r \<Rightarrow> 'l list
     \<Rightarrow> error + ('l \<rightharpoonup> fl list)" where
  "mec_fit_loop ga n d X y models rs [] = Inr models"
| "mec_fit_loop ga n d X y models rs (c_value # cs) =
     (case mec_build_for_class ga n d rs (select_rows X y c_value) of
        (Inl e, rs') \<Rightarrow> Inl e
      | (Inr m, rs') \<Rightarrow> mec_fit_loop ga n d X y (models(c_value \<mapsto> m)) rs' cs)"

text \<open>\<^verbatim>\<open>fit\<close>. \<^verbatim>\<open>check_arrays\<close> (of scikit-learn) refuses arrays of different
  lengths; what else it may refuse is not modelled, and the statements about a successful
  \<^verbatim>\<open>fit\<close> are made for arrays of finite values. \<open>df\<close> is the distance factory, which
  here builds a \<^verbatim>\<open>StoeanDistance\<close>; \<open>rs\<close> is the random source the engine draws from
  when it is given none.\<close>

definition mec_fit ::
  "'r ga_engine \<Rightarrow> (ndarray \<Rightarrow> error + fl list) \<Rightarrow> nat \<Rightarrow> 'r \<Rightarrow> ndarray \<Rightarrow> ('l::linorder) list
     \<Rightarrow> error + 'l mec" where
  "mec_fit ga df n_iterations rs X y =
     (if nrows X \<noteq> length y then Inl ValueError
      else
        (case df X of
           Inl e \<Rightarrow> Inl e
         | Inr d \<Rightarrow>
             (case mec_fit_loop ga n_iterations d X y Map.empty rs (np_unique y) of
                Inl e \<Rightarrow> Inl e
              | Inr models \<Rightarrow>
                  Inr \<lparr>mec_classes = np_unique y, mec_distance = d, mec_models = models\<rparr>)))"

text \<open>\<^verbatim>\<open>R[:,c_idx] = s\<close> for a scalar \<open>s\<close>: every row of \<open>R\<close> gets \<open>s\<close> in column \<open>c_idx\<close>.\<close>

definition set_col_scalar :: "fl list list \<Rightarrow> nat \<Rightarrow> fl \<Rightarrow> fl list list" where
  "set_col_scalar R j s = map (\<lambda>row. row[j := s]) R"

fun mec_predict_loop ::
  "'l mec \<Rightarrow> ndarray \<Rightarrow> fl list list \<Rightarrow> (nat \<times> 'l) list \<Rightarrow> error + fl list list" where
  "mec_predict_loop st X R [] = Inr R"
| "mec_predict_loop st X R ((c_idx, c_value) # cs) =
     (case mec_models st c_value of
        None \<Rightarrow> Inl KeyError
      | Some m \<Rightarrow>
          (case distance_fitness (mec_distance st) X m of
             Inl e \<Rightarrow> Inl e
           | Inr s \<Rightarrow> mec_predict_loop st X (set_col_scalar R c_idx s) cs))"

text \<open>\<^verbatim>\<open>self.classes_.take(np.argmin(R, 1))\<close>; \<^verbatim>\<open>argmin\<close> along an axis of length 0
  raises ValueError.\<close>

definition take_argmin :: "'l list \<Rightarrow> fl list list \<Rightarrow> error + 'l list" where
  "take_argmin classes R =
     (if classes = [] then Inl ValueError
      else Inr (map (\<lambda>row. classes ! argmin row) R))"

definition enumerate_from0 :: "'a list \<Rightarrow> (nat \<times> 'a) list" where
  "enumerate_from0 xs = zip [0..<length xs] xs"

definition np_zeros :: "nat \<Rightarrow> nat \<Rightarrow> fl list list" where
  "np_zeros m n = replicate m (replicate n (Fin 0))"

definition mec_predict :: "'l mec \<Rightarrow> ndarray \<Rightarrow> error + 'l list" where
  "mec_predict st X =
     (case mec_predict_loop st X (np_zeros (nrows X) (length (mec_classes st)))
             (enumerate_from0 (mec_classes st)) of
        Inl e \<Rightarrow> Inl e
      | Inr R \<Rightarrow> take_argmin (mec_classes st) R)"

section \<open>EnsembleMultimodalEvolutionaryClassifier\<close>

text \<open>The attributes that \<^verbatim>\<open>predict\<close> reads: the hyperparameter \<^verbatim>\<open>n_models\<close> and
  what \<^verbatim>\<open>fit\<close> stores, \<^verbatim>\<open>classes_\<close>, \<^verbatim>\<open>d\<close> and \<^verbatim>\<open>models_\<close> (per class, the array
  of its chromosomes).\<close>

record 'l emec =
  emec_n_models :: nat
  emec_classes :: "'l list"
  emec_d :: "fl list"
  emec_models :: "'l \<rightharpoonup> fl list list"

text \<open>\<^verbatim>\<open>lambda c: np.sum(np.abs(X - c) / self.d)\<close>, the fitness written out in
  \<^verbatim>\<open>build_for_class\<close>, and \<^verbatim>\<open>np.sum(np.abs(X - model) / self.d, 1)\<close>, the distance
  written out in \<^verbatim>\<open>predict\<close>.\<close>

definition emec_distance_fitness :: "fl list \<Rightarrow> ndarray \<Rightarrow> fl list \<Rightarrow> error + fl" where
  "emec_distance_fitness d X c =
     (case broadcast2 fl_sub X c of
        Inl e \<Rightarrow> Inl e
      | Inr A \<Rightarrow>
          (case broadcast2 fl_div (np_abs A) d of
             Inl e \<Rightarrow> Inl e
           | Inr B \<Rightarrow> Inr (sum_all B)))"

definition emec_row_distance :: "fl list \<Rightarrow> ndarray \<Rightarrow> fl list \<Rightarrow> error + fl list" where
  "emec_row_distance d X model =
     (case broadcast2 fl_sub X model of
        Inl e \<Rightarrow> Inl e
      | Inr A \<Rightarrow>
          (case broadcast2 fl_div (np_abs A) d of
             Inl e \<Rightarrow> Inl e
           | Inr B \<Rightarrow> Inr (sum_axis1 B)))"

definition emec_build_for_class ::
  "'r ga_engine \<Rightarrow> nat \<Rightarrow> fl list \<Rightarrow> 'r \<Rightarrow> ndarray \<Rightarrow> (error + fl list) \<times> 'r" where
  "emec_build_for_class ga n_iterations d rs X =
     ga \<lparr>fitness_function = emec_distance_fitness d X, elitism = 3, n_chromosomes = 100,
         n_genes = ncols X, p_mutation = 3 / 10\<rparr> n_iterations rs"

text \<open>\<^verbatim>\<open>X_class[idx]\<close> for an array \<open>idx\<close> of indices: IndexError when one is out of
  bounds.\<close>

definition take_rows :: "ndarray \<Rightarrow> nat list \<Rightarrow> error + ndarray" where
  "take_rows X idx =
     (if \<forall>i \<in> set idx. i < nrows X then Inr (X\<lparr>rows := map (\<lambda>i. rows X ! i) idx\<rparr>)
      else Inl IndexError)"

text \<open>The loop \<^verbatim>\<open>for i in range(self.n_models)\<close> of \<^verbatim>\<open>fit\<close>: a bootstrap resample of
  the class's rows, one run of the engine on it, and the chromosome appended.\<close>

fun emec_resample_loop ::
  "'r ga_engine \<Rightarrow> 'r rng_choice \<Rightarrow> nat \<Rightarrow> fl list \<Rightarrow> ndarray \<Rightarrow> fl list list \<Rightarrow> 'r \<Rightarrow> nat
     \<Rightarrow> (error + fl list list) \<times> 'r" where
  "emec_resample_loop ga choice n d X_class c_models rs 0 = (Inr c_models, rs)"
| "emec_resample_loop ga choice n d X_class c_models rs (Suc k) =
     (case choice rs (nrows X_class) (nrows X_class) of
        (idx, rs1) \<Rightarrow>
          (case take_rows X_class idx of
             Inl e \<Rightarrow> (Inl e, rs1)
           | Inr X_sample \<Rightarrow>
               (case emec_build_for_class ga n d rs1 X_sample of
                  (Inl e, rs2) \<Rightarrow> (Inl e, rs2)
                | (Inr m, rs2) \<Rightarrow>
                    emec_resample_loop ga choice n d X_class (c_models @ [m]) rs2 k)))"

fun emec_fit_loop ::
  "'r ga_engine \<Rightarrow> 'r rng_choice \<Rightarrow> nat \<Rightarrow> nat \<Rightarrow> fl list \<Rightarrow> ndarray \<Rightarrow> 'l list
     \<Rightarrow> ('l \<rightharpoonup> fl list list) \<Rightarrow> 'r \<Rightarrow> 'l list \<Rightarrow> error + ('l \<rightharpoonup> fl list list)" where
  "emec_fit_loop ga choice n n_models d X y models rs [] = Inr models"
| "emec_fit_loop ga choice n n_models d X y models rs (c_value # cs) =
     (case emec_resample_loop ga choice n d (select_rows X y c_value) [] rs n_models of
        (Inl e, rs') \<Rightarrow> Inl e
      | (Inr c_models, rs') \<Rightarrow>
          emec_fit_loop ga choice n n_models d X y (models(c_value \<mapsto> c_models)) rs' cs)"

text \<open>\<^verbatim>\<open>fit\<close>. \<open>random_state\<close> is the hyperparameter of that name; without a seed,
  \<^verbatim>\<open>RandomState()\<close> starts from the state \<open>entropy\<close> that the operating system
  supplies.\<close>

definition emec_fit ::
  "'r ga_engine \<Rightarrow> 'r rng_choice \<Rightarrow> (int \<Rightarrow> 'r) \<Rightarrow> nat \<Rightarrow> nat \<Rightarrow> int option \<Rightarrow> 'r
     \<Rightarrow> ndarray \<Rightarrow> ('l::linorder) list \<Rightarrow> error + 'l emec" where
  "emec_fit ga choice rng_seed n_iterations n_models random_state entropy X y =
     (if nrows X \<noteq> length y then Inl ValueError
      else
        (let rs = (case random_state of None \<Rightarrow> entropy | Some seed \<Rightarrow> rng_seed seed) in
         case nanmax X of
           Inl e \<Rightarrow> Inl e
         | Inr b \<Rightarrow>
             (case nanmin X of
                Inl e \<Rightarrow> Inl e
              | Inr a \<Rightarrow>
                  (case emec_fit_loop ga choice n_iterations n_models (map2 fl_sub b a) X y
                          Map.empty rs (np_unique y) of
                     Inl e \<Rightarrow> Inl e
                   | Inr models \<Rightarrow>
                       Inr \<lparr>emec_n_models = n_models, emec_classes = np_unique y,
                            emec_d = map2 fl_sub b a, emec_models = models\<rparr>))))"

text \<open>\<^verbatim>\<open>R[:,m_idx] = v\<close> for a vector \<open>v\<close> of one entry per row.\<close>

definition set_col :: "fl list list \<Rightarrow> nat \<Rightarrow> fl list \<Rightarrow> fl list list" where
  "set_col R j v = map2 (\<lambda>row x. row[j := x]) R v"

text \<open>The inner loop of \<^verbatim>\<open>predict\<close> over \<^verbatim>\<open>enumerate(self.models_[c_value])\<close>; a
  column index beyond \<^verbatim>\<open>n_models\<close> is an IndexError. \<open>R\<close> is allocated once, before
  the loop over the classes, and never cleared.\<close>

fun emec_model_loop ::
  "'l emec \<Rightarrow> ndarray \<Rightarrow> fl list list \<Rightarrow> (nat \<times> fl list) list \<Rightarrow> error + fl list list" where
  "emec_model_loop st X R [] = Inr R"
| "emec_model_loop st X R ((m_idx, model) # ms) =
     (case emec_row_distance (emec_d st) X model of
        Inl e \<Rightarrow> Inl e
      | Inr v \<Rightarrow>
          (if m_idx < emec_n_models st then emec_model_loop st X (set_col R m_idx v) ms
           else Inl IndexError))"

fun emec_predict_loop ::
  "'l emec \<Rightarrow> ndarray \<Rightarrow> fl list list \<Rightarrow> fl list list \<Rightarrow> (nat \<times> 'l) list
     \<Rightarrow> error + fl list list" where
  "emec_predict_loop st X M R [] = Inr M"
| "emec_predict_loop st X M R ((c_idx, c_value) # cs) =
     (case emec_models st c_value of
        None \<Rightarrow> Inl KeyError
      | Some ms \<Rightarrow>
          (case emec_model_loop st X R (enumerate_from0 ms) of
             Inl e \<Rightarrow> Inl e
           | Inr R' \<Rightarrow> emec_predict_loop st X (set_col M c_idx (map fl_sum R')) R' cs))"

definition emec_predict :: "'l emec \<Rightarrow> ndarray \<Rightarrow> error + 'l list" where
  "emec_predict st X =
     (case emec_predict_loop st X (np_zeros (nrows X) (length (emec_classes st)))
             (np_zeros (nrows X) (emec_n_models st)) (enumerate_from0 (emec_classes st)) of
        Inl e \<Rightarrow> Inl e
      | Inr M \<Rightarrow> take_argmin (emec_classes st) M)"

section \<open>Specification-level notions\<close>

text \<open>The normalised Manhattan distance of one row \<open>r\<close> to a reference point \<open>c\<close>
  under the scale vector \<open>d\<close>: the sum over the features of \<open>|r[f] - c[f]| / d[f]\<close>.\<close>

definition row_dist :: "fl list \<Rightarrow> fl list \<Rightarrow> fl list \<Rightarrow> fl" where
  "row_dist d r c = fl_sum (map2 fl_div (map fl_abs (map2 fl_sub r c)) d)"

text \<open>The total distance of a whole query set \<open>X\<close> to the model of class \<open>c\<close>: the
  row distances summed over all rows of \<open>X\<close>.\<close>

definition mec_total :: "'l mec \<Rightarrow> ndarray \<Rightarrow> 'l \<Rightarrow> fl" where
  "mec_total st X c =
     fl_sum (map (\<lambda>r. row_dist (mec_distance st) r (the (mec_models st c))) (rows X))"

text \<open>What \<^verbatim>\<open>fit\<close> establishes for a training set of \<open>F\<close> features: a class list
  that is non-empty, ascending and free of duplicates, a scale vector of length \<open>F\<close>, and
  one model chromosome of length \<open>F\<close> per class.\<close>

definition mec_fitted :: "('l::linorder) mec \<Rightarrow> nat \<Rightarrow> bool" where
  "mec_fitted st F =
     (mec_classes st \<noteq> [] \<and> sorted (mec_classes st) \<and> distinct (mec_classes st)
      \<and> length (mec_distance st) = F
      \<and> (\<forall>c \<in> set (mec_classes st). \<exists>m. mec_models st c = Some m \<and> length m = F))"

text \<open>The position, in the class list, that \<^verbatim>\<open>np.argmin\<close> selects among the totals.\<close>

definition mec_best :: "'l mec \<Rightarrow> ndarray \<Rightarrow> nat" where
  "mec_best st X = argmin (map (mec_total st X) (mec_classes st))"

text \<open>The prediction as the specification words it (section 4.4): the score of row \<open>i\<close>
  for class \<open>c\<close> is the distance of row \<open>i\<close> alone to the model of \<open>c\<close>, and each row
  gets the class of its least score.\<close>

definition mec_predict_rowwise :: "'l mec \<Rightarrow> ndarray \<Rightarrow> error + 'l list" where
  "mec_predict_rowwise st X =
     (if mec_classes st = [] then Inl ValueError
      else Inr (map (\<lambda>r. mec_classes st !
                  argmin (map (\<lambda>c. row_dist (mec_distance st) r (the (mec_models st c)))
                            (mec_classes st)))
                (rows X)))"

text \<open>A fitted classifier of two classes over one feature, and a query set.\<close>

definition ex_mec :: "nat mec" where
  "ex_mec = \<lparr>mec_classes = [0, 1], mec_distance = [Fin 10],
             mec_models = [0 \<mapsto> [Fin 0], 1 \<mapsto> [Fin 10]]\<rparr>"

definition ex_query :: ndarray where
  "ex_query = \<lparr>ncols = 1, rows = [[Fin 0], [Fin 10], [Fin 10]]\<rparr>"

text \<open>The aggregate score of a row \<open>r\<close> for class \<open>c\<close>: the row's distance to each of
  the class's stored models, summed over those models.\<close>

definition emec_score :: "'l emec \<Rightarrow> fl list \<Rightarrow> 'l \<Rightarrow> fl" where
  "emec_score st r c = fl_sum (map (row_dist (emec_d st) r) (the (emec_models st c)))"

text \<open>What \<^verbatim>\<open>fit\<close> establishes for the ensemble: as for the single-model classifier,
  with \<^verbatim>\<open>n_models\<close> chromosomes of length \<open>F\<close> per class.\<close>

definition emec_fitted :: "('l::linorder) emec \<Rightarrow> nat \<Rightarrow> bool" where
  "emec_fitted st F =
     (emec_classes st \<noteq> [] \<and> sorted (emec_classes st) \<and> distinct (emec_classes st)
      \<and> length (emec_d st) = F
      \<and> (\<forall>c \<in> set (emec_classes st). \<exists>ms. emec_models st c = Some ms
            \<and> length ms = emec_n_models st \<and> (\<forall>m \<in> set ms. length m = F)))"

text \<open>The position that \<^verbatim>\<open>np.argmin\<close> selects among the scores of one row.\<close>

definition emec_best :: "'l emec \<Rightarrow> fl list \<Rightarrow> nat" where
  "emec_best st r = argmin (map (emec_score st r) (emec_classes st))"

text \<open>A fitted ensemble of two classes with two models each.\<close>

definition ex_emec :: "nat emec" where
  "ex_emec = \<lparr>emec_n_models = 2, emec_classes = [0, 1], emec_d = [Fin 10],
              emec_models = [0 \<mapsto> [[Fin 0], [Fin 1]], 1 \<mapsto> [[Fin 10], [Fin 9]]]\<rparr>"

text \<open>Values and arrays without infinity or NaN.\<close>

fun is_fin :: "fl \<Rightarrow> bool" where
  "is_fin (Fin a) = True"
| "is_fin x = False"

definition all_finite :: "ndarray \<Rightarrow> bool" where
  "all_finite X = (\<forall>r \<in> set (rows X). \<forall>x \<in> set r. is_fin x)"

text \<open>A training set whose second feature is constant.\<close>

definition ex_train :: ndarray where
  "ex_train = \<lparr>ncols = 2, rows = [[Fin 1, Fin 5], [Fin 2, Fin 5]]\<rparr>"

text \<open>Modelled from the spec: the contract of the engine, which is not part of the
  sources at hand. By section 4.2 of the specification every chromosome has as many genes
  as configured, and the engine has no failure of its own: when the fitness function has
  a value for every chromosome of the configured length, the engine returns a chromosome
  of that length. The contract of \<^verbatim>\<open>RandomState.choice(n, k)\<close> of numpy: the indices
  drawn are below \<open>n\<close>.\<close>

definition ga_ok :: "'r ga_engine \<Rightarrow> bool" where
  "ga_ok ga =
     (\<forall>p n rs. (\<forall>c. length c = n_genes p \<longrightarrow> (\<exists>v. fitness_function p c = Inr v))
        \<longrightarrow> (\<exists>m rs'. ga p n rs = (Inr m, rs') \<and> length m = n_genes p))"

definition choice_ok :: "'r rng_choice \<Rightarrow> bool" where
  "choice_ok choice = (\<forall>rs n k. 0 < n \<longrightarrow> (\<forall>i \<in> set (fst (choice rs n k)). i < n))"

text \<open>An engine and a random source for the examples. The state of the source is a
  counter; the engine draws one chromosome from it, evaluates it and reports it.\<close>

definition ex_ga :: "nat ga_engine" where
  "ex_ga p n rs =
     (let c = replicate (n_genes p) (Fin (real rs)) in
      case fitness_function p c of
        Inl e \<Rightarrow> (Inl e, Suc rs)
      | Inr v \<Rightarrow> (Inr c, Suc rs))"

definition ex_choice :: "nat rng_choice" where
  "ex_choice rs n k = (map (\<lambda>i. (rs + i) mod n) [0..<k], rs + k)"

definition ex_empty :: ndarray where
  "ex_empty = \<lparr>ncols = 1, rows = []\<rparr>"



text \<open>The two-class training set of section 8 of the specification, with the labels
  \<open>a\<close> and \<open>b\<close> written 0 and 1.\<close>

definition ex_sep :: ndarray where
  "ex_sep = \<lparr>ncols = 2, rows = [[Fin 0, Fin 0], [Fin 0, Fin 1], [Fin 10, Fin 10], [Fin 10, Fin 11]]\<rparr>"

definition ex_sep_y :: "nat list" where
  "ex_sep_y = [0, 0, 1, 1]"

text \<open>One run of the ensemble classifier: \<^verbatim>\<open>fit(X, y)\<close>, then \<^verbatim>\<open>predict(Q)\<close>.\<close>

definition emec_fit_predict ::
  "'r ga_engine \<Rightarrow> 'r rng_choice \<Rightarrow> (int \<Rightarrow> 'r) \<Rightarrow> nat \<Rightarrow> nat \<Rightarrow> int option \<Rightarrow> 'r
     \<Rightarrow> ndarray \<Rightarrow> ('l::linorder) list \<Rightarrow> ndarray \<Rightarrow> error + 'l list" where
  "emec_fit_predict ga choice rng_seed n_iterations n_models random_state entropy X y Q =
     (case emec_fit ga choice rng_seed n_iterations n_models random_state entropy X y of
        Inl e \<Rightarrow> Inl e
      | Inr st \<Rightarrow> emec_predict st Q)"

text \<open>The maximum and the minimum of a column that ignore missing values (NaN): the
  greatest, respectively least, of the entries that are not NaN, and NaN when there is
  no such entry.\<close>

definition is_nanmax :: "fl list \<Rightarrow> fl \<Rightarrow> bool" where
  "is_nanmax xs m =
     (if \<forall>x \<in> set xs. x = NaN then m = NaN
      else m \<noteq> NaN \<and> m \<in> set xs \<and> (\<forall>x \<in> set xs. x \<noteq> NaN \<longrightarrow> fl_le x m))"

definition is_nanmin :: "fl list \<Rightarrow> fl \<Rightarrow> bool" where
  "is_nanmin xs m =
     (if \<forall>x \<in> set xs. x = NaN then m = NaN
      else m \<noteq> NaN \<and> m \<in> set xs \<and> (\<forall>x \<in> set xs. x \<noteq> NaN \<longrightarrow> fl_le m x))"

text \<open>The configurations that the two \<^verbatim>\<open>build_for_class\<close> hand to the engine, for a scale
  vector \<open>d\<close> and a set of rows \<open>S\<close>.\<close>

definition mec_ga_params :: "fl list \<Rightarrow> ndarray \<Rightarrow> ga_params" where
  "mec_ga_params d S =
     \<lparr>fitness_function = distance_fitness d S, elitism = 3, n_chromosomes = 100,
      n_genes = ncols S, p_mutation = 3 / 10\<rparr>"

definition emec_ga_params :: "fl list \<Rightarrow> ndarray \<Rightarrow> ga_params" where
  "emec_ga_params d S =
     \<lparr>fitness_function = emec_distance_fitness d S, elitism = 3, n_chromosomes = 100,
      n_genes = ncols S, p_mutation = 3 / 10\<rparr>"

text \<open>A training set with a missing value.\<close>

definition ex_missing :: ndarray where
  "ex_missing = \<lparr>ncols = 2, rows = [[Fin 1, NaN], [Fin 3, Fin 5]]\<rparr>"

text \<open>The training set \<open>ex_train\<close> with one row per class, and what the two classifiers
  become when fitted on it with the example engine (the single-model one from the state
  4 of the random source, the ensemble with seed 0 and two models per class).\<close>

definition ex_train_y :: "nat list" where
  "ex_train_y = [0, 1]"

definition ex_mec_nan :: "nat mec" where
  "ex_mec_nan = \<lparr>mec_classes = [0, 1], mec_distance = [Fin 1, Fin 0],
                 mec_models = [0 \<mapsto> [Fin 4, Fin 4], 1 \<mapsto> [Fin 5, Fin 5]]\<rparr>"

definition ex_emec_nan :: "nat emec" where
  "ex_emec_nan = \<lparr>emec_n_models = 2, emec_classes = [0, 1], emec_d = [Fin 1, Fin 0],
                  emec_models = [0 \<mapsto> [[Fin 1, Fin 1], [Fin 3, Fin 3]],
                                 1 \<mapsto> [[Fin 5, Fin 5], [Fin 7, Fin 7]]]\<rparr>"

section \<open>The ambient state of a run\<close>

text \<open>
  Modelled from the spec: what may differ between two runs. The engine of \<^verbatim>\<open>fylearn.ga\<close>
  is not part of the sources at hand; it takes the random source as an optional argument
  (the single-model classifier passes none), so it has a source of its own to fall back
  on, which belongs to the ambient state of the process. An engine is therefore a
  function of the source it is handed and of the ambient state as well, and returns the
  next state of both. Sections 4.3 and 5 of the specification ask that a run be
  reproducible from the seed: the engine handed a source draws from that source only,
  that is, the chromosome it reports and the next state of the source do not depend on
  the ambient state.
\<close>

type_synonym ('r, 'g) ambient_engine =
  "ga_params \<Rightarrow> nat \<Rightarrow> 'r \<Rightarrow> 'g \<Rightarrow> (error + fl list) \<times> 'r \<times> 'g"

definition draws_from_given_source :: "('r, 'g) ambient_engine \<Rightarrow> bool" where
  "draws_from_given_source ga =
     (\<forall>p n rs g1 g2. fst (ga p n rs g1) = fst (ga p n rs g2)
        \<and> fst (snd (ga p n rs g1)) = fst (snd (ga p n rs g2)))"

text \<open>Modelled from the spec: the state that \<^verbatim>\<open>fit\<close> threads through its loops is
  then the pair of the state of its \<^verbatim>\<open>RandomState\<close> and the ambient state;
  \<^verbatim>\<open>RandomState.choice\<close> changes the first only.\<close>

definition with_ambient_ga :: "('r, 'g) ambient_engine \<Rightarrow> ('r \<times> 'g) ga_engine" where
  "with_ambient_ga ga p n w =
     (case w of (rs, g) \<Rightarrow> (case ga p n rs g of (res, rs', g') \<Rightarrow> (res, (rs', g'))))"

definition with_ambient_choice :: "'r rng_choice \<Rightarrow> ('r \<times> 'g) rng_choice" where
  "with_ambient_choice choice w n k =
     (case w of (rs, g) \<Rightarrow> (case choice rs n k of (idx, rs') \<Rightarrow> (idx, (rs', g))))"

text \<open>One run of the ensemble classifier, \<^verbatim>\<open>fit(X, y)\<close> and then \<^verbatim>\<open>predict(Q)\<close>, in a
  process whose ambient state is \<open>g\<close> at the start and where the operating system would
  seed an unseeded source with \<open>entropy\<close>.\<close>

definition emec_run ::
  "('r, 'g) ambient_engine \<Rightarrow> 'r rng_choice \<Rightarrow> (int \<Rightarrow> 'r) \<Rightarrow> nat \<Rightarrow> nat \<Rightarrow> int option
     \<Rightarrow> 'r \<Rightarrow> 'g \<Rightarrow> ndarray \<Rightarrow> ('l::linorder) list \<Rightarrow> ndarray \<Rightarrow> error + 'l list" where
  "emec_run ga choice rng_seed n_iterations n_models random_state entropy g X y Q =
     emec_fit_predict (with_ambient_ga ga) (with_ambient_choice choice)
       (\<lambda>seed. (rng_seed seed, g)) n_iterations n_models random_state (entropy, g) X y Q"

text \<open>Two engines for the examples: the first draws its chromosome from the source it is
  handed, the second from the ambient state.\<close>

definition ex_ga_given :: "(nat, nat) ambient_engine" where
  "ex_ga_given p n rs g = (case ex_ga p n rs of (res, rs') \<Rightarrow> (res, rs', Suc g))"

definition ex_ga_ambient :: "(nat, nat) ambient_engine" where
  "ex_ga_ambient p n rs g = (case ex_ga p n g of (res, g') \<Rightarrow> (res, rs, g'))"

section \<open>Rounding\<close>

text \<open>
  The two classifiers add the same terms in different orders, so whether their fitness
  values agree to the last bit depends on the rounding of every operation. For this
  question alone a double operation is modelled as the exact operation followed by a
  rounding \<open>rnd\<close> of the finite results; the special values are left as they are.
  Overflow and subnormal numbers are still not modelled.
\<close>

fun fl_round :: "(real \<Rightarrow> real) \<Rightarrow> fl \<Rightarrow> fl" where
  "fl_round rnd (Fin a) = Fin (rnd a)"
| "fl_round rnd x = x"

definition rounded :: "(real \<Rightarrow> real) \<Rightarrow> (fl \<Rightarrow> fl \<Rightarrow> fl) \<Rightarrow> fl \<Rightarrow> fl \<Rightarrow> fl" where
  "rounded rnd f x y = fl_round rnd (f x y)"

text \<open>The rounding of IEEE binary64 arithmetic in its default mode: to the nearest
  number with a significand of 53 bits, a tie going to the even significand.\<close>

definition round_half_even :: "real \<Rightarrow> int" where
  "round_half_even x =
     (let f = \<lfloor>x\<rfloor> in
      if x - of_int f < 1 / 2 then f
      else if 1 / 2 < x - of_int f then f + 1
      else if even f then f else f + 1)"

definition rnd64 :: "real \<Rightarrow> real" where
  "rnd64 x =
     (if x = 0 then 0
      else let e = \<lfloor>log 2 \<bar>x\<bar>\<rfloor> - 52 in
        if 0 \<le> e then of_int (round_half_even (x / 2 ^ nat e)) * 2 ^ nat e
        else of_int (round_half_even (x * 2 ^ nat (- e))) / 2 ^ nat (- e))"

text \<open>\<^verbatim>\<open>np.sum\<close> over one contiguous run of doubles. Two orders of the additions
  are modelled. In the first the result starts as the first element, and the sum of the
  remaining ones, accumulated from zero, is added to it; the second is the plain loop
  from left to right, starting from zero. For a run of at most eight elements numpy adds
  in one of the two, depending on its version; a longer run is added in blocks, which is
  not modelled.\<close>

definition np_add_reduce :: "(real \<Rightarrow> real) \<Rightarrow> fl list \<Rightarrow> fl" where
  "np_add_reduce rnd xs =
     (case xs of
        [] \<Rightarrow> Fin 0
      | x # rest \<Rightarrow> rounded rnd fl_add x (foldl (rounded rnd fl_add) (Fin 0) rest))"

definition seq_add_reduce :: "(real \<Rightarrow> real) \<Rightarrow> fl list \<Rightarrow> fl" where
  "seq_add_reduce rnd xs = foldl (rounded rnd fl_add) (Fin 0) xs"

text \<open>The four expressions of the source with every operation rounded and every sum
  taken by the reduction \<open>red\<close>: \<^verbatim>\<open>StoeanDistance.pairwise\<close>, the fitness function of the
  single-model classifier, and the two inline expressions of the ensemble classifier.\<close>

definition pairwise_r ::
  "(real \<Rightarrow> real) \<Rightarrow> (fl list \<Rightarrow> fl) \<Rightarrow> fl list \<Rightarrow> ndarray \<Rightarrow> fl list \<Rightarrow> error + fl list" where
  "pairwise_r rnd red d X c =
     (case broadcast2 (rounded rnd fl_sub) X c of
        Inl e \<Rightarrow> Inl e
      | Inr A \<Rightarrow>
          (case broadcast2 (rounded rnd fl_div) (np_abs A) d of
             Inl e \<Rightarrow> Inl e
           | Inr B \<Rightarrow> Inr (map red (rows B))))"

definition distance_fitness_r ::
  "(real \<Rightarrow> real) \<Rightarrow> (fl list \<Rightarrow> fl) \<Rightarrow> fl list \<Rightarrow> ndarray \<Rightarrow> fl list \<Rightarrow> error + fl" where
  "distance_fitness_r rnd red d X c =
     (case pairwise_r rnd red d X c of Inl e \<Rightarrow> Inl e | Inr v \<Rightarrow> Inr (red v))"

definition emec_distance_fitness_r ::
  "(real \<Rightarrow> real) \<Rightarrow> (fl list \<Rightarrow> fl) \<Rightarrow> fl list \<Rightarrow> ndarray \<Rightarrow> fl list \<Rightarrow> error + fl" where
  "emec_distance_fitness_r rnd red d X c =
     (case broadcast2 (rounded rnd fl_sub) X c of
        Inl e \<Rightarrow> Inl e
      | Inr A \<Rightarrow>
          (case broadcast2 (rounded rnd fl_div) (np_abs A) d of
             Inl e \<Rightarrow> Inl e
           | Inr B \<Rightarrow> Inr (red (concat (rows B)))))"

definition emec_row_distance_r ::
  "(real \<Rightarrow> real) \<Rightarrow> (fl list \<Rightarrow> fl) \<Rightarrow> fl list \<Rightarrow> ndarray \<Rightarrow> fl list \<Rightarrow> error + fl list" where
  "emec_row_distance_r rnd red d X model =
     (case broadcast2 (rounded rnd fl_sub) X model of
        Inl e \<Rightarrow> Inl e
      | Inr A \<Rightarrow>
          (case broadcast2 (rounded rnd fl_div) (np_abs A) d of
             Inl e \<Rightarrow> Inl e
           | Inr B \<Rightarrow> Inr (map red (rows B))))"

text \<open>A class subset with one large coordinate.\<close>

definition ex_big :: ndarray where
  "ex_big = \<lparr>ncols = 2, rows = [[Fin 10000000000000000, Fin 1], [Fin 1, Fin 1]]\<rparr>"

section \<open>Arithmetic of sums\<close>

lemma fl_add_assoc: "fl_add (fl_add x y) z = fl_add x (fl_add y z)"
  by (cases x; cases y; cases z) simp_all

lemma fl_add_zero_left: "fl_add (Fin 0) x = x"
  by (cases x) simp_all

lemma fl_add_zero_right: "fl_add x (Fin 0) = x"
  by (cases x) simp_all

lemma foldl_fl_add: "foldl fl_add a xs = fl_add a (foldl fl_add (Fin 0) xs)"
proof (induction xs arbitrary: a)
  case Nil
  then show ?case by (simp add: fl_add_zero_right)
next
  case (Cons x xs)
  have "foldl fl_add a (x # xs) = foldl fl_add (fl_add a x) xs" by simp
  also have "\<dots> = fl_add (fl_add a x) (foldl fl_add (Fin 0) xs)" by (rule Cons.IH)
  also have "\<dots> = fl_add a (fl_add x (foldl fl_add (Fin 0) xs))" by (rule fl_add_assoc)
  also have "fl_add x (foldl fl_add (Fin 0) xs) = foldl fl_add x xs" by (rule Cons.IH [symmetric])
  finally show ?case by (simp add: fl_add_zero_left)
qed

lemma fl_sum_Nil: "fl_sum [] = Fin 0"
  by (simp add: fl_sum_def)

lemma fl_sum_Cons: "fl_sum (x # xs) = fl_add x (fl_sum xs)"
  unfolding fl_sum_def using foldl_fl_add [of x xs] by (simp add: fl_add_zero_left)

lemma fl_sum_append: "fl_sum (xs @ ys) = fl_add (fl_sum xs) (fl_sum ys)"
  by (induction xs) (simp_all add: fl_sum_Nil fl_sum_Cons fl_add_zero_left fl_add_assoc)

lemma fl_sum_concat: "fl_sum (concat xss) = fl_sum (map fl_sum xss)"
  by (induction xss) (simp_all add: fl_sum_Nil fl_sum_Cons fl_sum_append)

lemma fl_sum_Fin: "fl_sum (map Fin xs) = Fin (sum_list xs)"
  by (induction xs) (simp_all add: fl_sum_Nil fl_sum_Cons)

lemma bcast_row_same: "length r = length v \<Longrightarrow> bcast_row f r v = map2 f r v"
  by (simp add: bcast_row_def)

lemma pairwise_rows:
  assumes "wf_array X" and "ncols X = length c" and "length d = length c"
  shows "pairwise d X c = Inr (map (\<lambda>r. row_dist d r c) (rows X))"
proof -
  have len: "\<And>r. r \<in> set (rows X) \<Longrightarrow> length r = length c"
    using assms(1,2) by (simp add: wf_array_def)
  have A: "broadcast2 fl_sub X c = Inr \<lparr>ncols = length c, rows = map (\<lambda>r. map2 fl_sub r c) (rows X)\<rparr>"
    using assms(2) len by (simp add: broadcast2_def bcast_row_same)
  have B: "broadcast2 fl_div (np_abs \<lparr>ncols = length c, rows = map (\<lambda>r. map2 fl_sub r c) (rows X)\<rparr>) d
      = Inr \<lparr>ncols = length c, rows = map (\<lambda>r. map2 fl_div (map fl_abs (map2 fl_sub r c)) d) (rows X)\<rparr>"
    using assms(3) len by (simp add: broadcast2_def np_abs_def bcast_row_same)
  show ?thesis
    by (simp add: pairwise_def A B sum_axis1_def row_dist_def)
qed

lemma row_dist_Fin:
  assumes "length r = length dr" and "length c = length dr" and "0 \<notin> set dr"
  shows "row_dist (map Fin dr) (map Fin r) (map Fin c) = Fin (\<Sum>f<length dr. \<bar>r ! f - c ! f\<bar> / dr ! f)"
proof -
  have "map2 fl_div (map fl_abs (map2 fl_sub (map Fin r) (map Fin c))) (map Fin dr)
      = map Fin (map (\<lambda>f. \<bar>r ! f - c ! f\<bar> / dr ! f) [0..<length dr])"
    using assms by (auto intro!: nth_equalityI simp: in_set_conv_nth)
  then have "row_dist (map Fin dr) (map Fin r) (map Fin c)
      = Fin (sum_list (map (\<lambda>f. \<bar>r ! f - c ! f\<bar> / dr ! f) [0..<length dr]))"
    unfolding row_dist_def by (simp only: fl_sum_Fin)
  also have "sum_list (map (\<lambda>f. \<bar>r ! f - c ! f\<bar> / dr ! f) [0..<length dr])
      = (\<Sum>f<length dr. \<bar>r ! f - c ! f\<bar> / dr ! f)"
    by (simp add: sum_list_sum_nth atLeast0LessThan)
  finally show ?thesis .
qed


text \<open>
  Claim C3. For a scale vector without a zero entry, a reference point and a point set
  of matching width, all of finite values, \<^verbatim>\<open>pairwise\<close> returns one entry per row, the
  sum over the features of \<open>|X[i,f] - c[f]| / d[f]\<close>. The witness is the example
  \<^verbatim>\<open>pairwise([[0,0],[2,2]], [1,1])\<close> with \<open>d = [1,1]\<close>, which gives \<open>[2.0, 2.0]\<close>.
\<close>

theorem pairwise_formula:
  assumes "\<forall>r \<in> set Xr. length r = length dr" and "length c = length dr" and "0 \<notin> set dr"
  shows "pairwise (map Fin dr) \<lparr>ncols = length dr, rows = map (map Fin) Xr\<rparr> (map Fin c)
    = Inr (map (\<lambda>r. Fin (\<Sum>f<length dr. \<bar>r ! f - c ! f\<bar> / dr ! f)) Xr)"
proof -
  let ?X = "\<lparr>ncols = length dr, rows = map (map Fin) Xr\<rparr>"
  have "wf_array ?X" using assms(1) by (simp add: wf_array_def)
  then have "pairwise (map Fin dr) ?X (map Fin c)
      = Inr (map (\<lambda>r. row_dist (map Fin dr) r (map Fin c)) (rows ?X))"
    using assms(2) by (intro pairwise_rows) simp_all
  also have "map (\<lambda>r. row_dist (map Fin dr) r (map Fin c)) (rows ?X)
      = map (\<lambda>r. Fin (\<Sum>f<length dr. \<bar>r ! f - c ! f\<bar> / dr ! f)) Xr"
    using assms by (simp add: row_dist_Fin)
  finally show ?thesis .
qed

theorem pairwise_formula_witness:
  "pairwise [Fin 1, Fin 1] \<lparr>ncols = 2, rows = [[Fin 0, Fin 0], [Fin 2, Fin 2]]\<rparr> [Fin 1, Fin 1]
     = Inr [Fin 2, Fin 2]"
  using pairwise_formula [of "[[0, 0], [2, 2]]" "[1, 1]" "[1, 1]"]
  by (simp add: lessThan_Suc numeral_2_eq_2)

section \<open>The argmin of a row\<close>

lemma fl_le_refl: "x \<noteq> NaN \<Longrightarrow> fl_le x x"
  by (cases x) simp_all

lemma fl_le_total: "x \<noteq> NaN \<Longrightarrow> y \<noteq> NaN \<Longrightarrow> fl_le x y \<or> fl_le y x"
  by (cases x; cases y) auto

lemma fl_le_trans: "fl_le x y \<Longrightarrow> fl_le y z \<Longrightarrow> fl_le x z"
  by (cases x; cases y; cases z) simp_all

lemma argmin_loop_bound: "mi < i \<Longrightarrow> argmin_loop mp mi i xs < i + length xs"
proof (induction xs arbitrary: mp mi i)
  case Nil
  then show ?case by simp
next
  case (Cons x xs)
  have a: "argmin_loop x i (Suc i) xs < Suc i + length xs"
    by (rule Cons.IH) simp
  have b: "argmin_loop mp mi (Suc i) xs < Suc i + length xs"
    by (rule Cons.IH) (use Cons.prems in simp)
  show ?case using a b by simp
qed

lemma argmin_bound: "xs \<noteq> [] \<Longrightarrow> argmin xs < length xs"
proof (cases xs)
  case Nil
  then show "xs \<noteq> [] \<Longrightarrow> ?thesis" by simp
next
  case (Cons x ys)
  show ?thesis using argmin_loop_bound [of 0 1 x ys] Cons by simp
qed

lemma argmin_loop_first_min:
  assumes "length pre = i" and "mi < i" and "pre ! mi = mp"
    and "NaN \<notin> set pre" and "NaN \<notin> set xs"
    and "\<forall>j<i. fl_le mp (pre ! j)" and "\<forall>j<mi. \<not> fl_le (pre ! j) mp"
  shows "(\<forall>j<i + length xs. fl_le ((pre @ xs) ! argmin_loop mp mi i xs) ((pre @ xs) ! j))
       \<and> (\<forall>j<argmin_loop mp mi i xs. \<not> fl_le ((pre @ xs) ! j) ((pre @ xs) ! argmin_loop mp mi i xs))"
  using assms
proof (induction xs arbitrary: pre i mi mp)
  case Nil
  then show ?case by simp
next
  case (Cons x xs)
  have xn: "x \<noteq> NaN" and mpn: "mp \<noteq> NaN"
    using Cons.prems by (auto simp: in_set_conv_nth)
  have app: "pre @ x # xs = (pre @ [x]) @ xs" by simp
  show ?case
  proof (cases "fl_le mp x")
    case True
    have "(\<forall>j<Suc i + length xs. fl_le (((pre @ [x]) @ xs) ! argmin_loop mp mi (Suc i) xs) (((pre @ [x]) @ xs) ! j))
       \<and> (\<forall>j<argmin_loop mp mi (Suc i) xs. \<not> fl_le (((pre @ [x]) @ xs) ! j) (((pre @ [x]) @ xs) ! argmin_loop mp mi (Suc i) xs))"
    proof (rule Cons.IH)
      show "length (pre @ [x]) = Suc i" using Cons.prems by simp
      show "mi < Suc i" using Cons.prems by simp
      show "(pre @ [x]) ! mi = mp" using Cons.prems by (simp add: nth_append)
      show "NaN \<notin> set (pre @ [x])" using Cons.prems by auto
      show "NaN \<notin> set xs" using Cons.prems by auto
      show "\<forall>j<Suc i. fl_le mp ((pre @ [x]) ! j)"
        using Cons.prems True by (auto simp: nth_append less_Suc_eq)
      show "\<forall>j<mi. \<not> fl_le ((pre @ [x]) ! j) mp"
        using Cons.prems by (auto simp: nth_append)
    qed
    then show ?thesis using True by (simp only: app) simp
  next
    case False
    then have xmp: "fl_le x mp" using fl_le_total [OF mpn xn] by blast
    have "(\<forall>j<Suc i + length xs. fl_le (((pre @ [x]) @ xs) ! argmin_loop x i (Suc i) xs) (((pre @ [x]) @ xs) ! j))
       \<and> (\<forall>j<argmin_loop x i (Suc i) xs. \<not> fl_le (((pre @ [x]) @ xs) ! j) (((pre @ [x]) @ xs) ! argmin_loop x i (Suc i) xs))"
    proof (rule Cons.IH)
      show "length (pre @ [x]) = Suc i" using Cons.prems by simp
      show "i < Suc i" by simp
      show "(pre @ [x]) ! i = x" using Cons.prems by (simp add: nth_append)
      show "NaN \<notin> set (pre @ [x])" using Cons.prems by auto
      show "NaN \<notin> set xs" using Cons.prems by auto
      show "\<forall>j<Suc i. fl_le x ((pre @ [x]) ! j)"
        using Cons.prems xmp xn by (auto simp: nth_append less_Suc_eq fl_le_refl intro: fl_le_trans)
      show "\<forall>j<i. \<not> fl_le ((pre @ [x]) ! j) x"
      proof (intro allI impI notI)
        fix j assume "j < i" and "fl_le ((pre @ [x]) ! j) x"
        then have "fl_le (pre ! j) x" using Cons.prems by (simp add: nth_append)
        moreover have "fl_le mp (pre ! j)" using Cons.prems \<open>j < i\<close> by simp
        ultimately have "fl_le mp x" by (blast intro: fl_le_trans)
        then show False using False by simp
      qed
    qed
    then show ?thesis using False xn by (simp only: app) simp
  qed
qed

lemma argmin_first_min:
  assumes "xs \<noteq> []" and "NaN \<notin> set xs"
  shows "(\<forall>j<length xs. fl_le (xs ! argmin xs) (xs ! j))
       \<and> (\<forall>j<argmin xs. \<not> fl_le (xs ! j) (xs ! argmin xs))"
proof -
  obtain x ys where xs: "xs = x # ys" using assms(1) by (cases xs) auto
  have xn: "x \<noteq> NaN" using assms(2) xs by auto
  have "(\<forall>j<1 + length ys. fl_le (([x] @ ys) ! argmin_loop x 0 1 ys) (([x] @ ys) ! j))
       \<and> (\<forall>j<argmin_loop x 0 1 ys. \<not> fl_le (([x] @ ys) ! j) (([x] @ ys) ! argmin_loop x 0 1 ys))"
    by (rule argmin_loop_first_min) (use assms(2) xs xn in \<open>auto simp: fl_le_refl\<close>)
  then show ?thesis using xs xn by simp
qed

lemma argmin_map_first_min:
  assumes "cs \<noteq> []"
  shows "argmin (map f cs) < length cs
       \<and> (NaN \<notin> f ` set cs \<longrightarrow>
            (\<forall>j<length cs. fl_le (f (cs ! argmin (map f cs))) (f (cs ! j)))
          \<and> (\<forall>j<argmin (map f cs). \<not> fl_le (f (cs ! j)) (f (cs ! argmin (map f cs)))))"
proof (intro conjI impI)
  let ?ts = "map f cs"
  have ne: "?ts \<noteq> []" using assms by simp
  show b: "argmin ?ts < length cs" using argmin_bound [OF ne] by simp
  assume "NaN \<notin> f ` set cs"
  then have nn: "NaN \<notin> set ?ts" by simp
  have fm: "(\<forall>j<length ?ts. fl_le (?ts ! argmin ?ts) (?ts ! j))
       \<and> (\<forall>j<argmin ?ts. \<not> fl_le (?ts ! j) (?ts ! argmin ?ts))"
    by (rule argmin_first_min [OF ne nn])
  show "\<forall>j<length cs. fl_le (f (cs ! argmin ?ts)) (f (cs ! j))"
    using fm b by simp
  show "\<forall>j<argmin ?ts. \<not> fl_le (f (cs ! j)) (f (cs ! argmin ?ts))"
  proof (intro allI impI)
    fix j assume j: "j < argmin ?ts"
    then have "j < length cs" using b by simp
    moreover have "\<not> fl_le (?ts ! j) (?ts ! argmin ?ts)" using fm j by simp
    ultimately show "\<not> fl_le (f (cs ! j)) (f (cs ! argmin ?ts))" using b by simp
  qed
qed

lemma fl_le_NaN_right: "\<not> fl_le x NaN"
  by (cases x) simp_all

lemma argmin_loop_first_nan:
  assumes "NaN \<in> set xs" and "mp \<noteq> NaN" and "length pre = i" and "NaN \<notin> set pre"
  shows "(pre @ xs) ! argmin_loop mp mi i xs = NaN
       \<and> (\<forall>j<argmin_loop mp mi i xs. (pre @ xs) ! j \<noteq> NaN)"
  using assms
proof (induction xs arbitrary: pre i mi mp)
  case Nil
  then show ?case by simp
next
  case (Cons x xs)
  have app: "pre @ x # xs = (pre @ [x]) @ xs" by simp
  show ?case
  proof (cases "x = NaN")
    case True
    have "\<forall>j<i. (pre @ x # xs) ! j \<noteq> NaN"
      using Cons.prems(3,4) by (auto simp: nth_append in_set_conv_nth)
    then show ?thesis using True Cons.prems(3) by (simp add: nth_append fl_le_NaN_right)
  next
    case False
    then have tl: "NaN \<in> set xs" using Cons.prems(1) by auto
    have pre: "length (pre @ [x]) = Suc i" "NaN \<notin> set (pre @ [x])"
      using Cons.prems(3,4) False by auto
    show ?thesis
    proof (cases "fl_le mp x")
      case True
      have "((pre @ [x]) @ xs) ! argmin_loop mp mi (Suc i) xs = NaN
          \<and> (\<forall>j<argmin_loop mp mi (Suc i) xs. ((pre @ [x]) @ xs) ! j \<noteq> NaN)"
        by (rule Cons.IH [OF tl Cons.prems(2) pre])
      then show ?thesis using True by (simp only: app) simp
    next
      case le: False
      have "((pre @ [x]) @ xs) ! argmin_loop x i (Suc i) xs = NaN
          \<and> (\<forall>j<argmin_loop x i (Suc i) xs. ((pre @ [x]) @ xs) ! j \<noteq> NaN)"
        by (rule Cons.IH [OF tl False pre])
      then show ?thesis using le False by (simp only: app) simp
    qed
  qed
qed

lemma argmin_first_nan:
  assumes "NaN \<in> set xs"
  shows "xs ! argmin xs = NaN \<and> (\<forall>j<argmin xs. xs ! j \<noteq> NaN)"
proof -
  obtain x ys where xs: "xs = x # ys" using assms by (cases xs) auto
  show ?thesis
  proof (cases "x = NaN")
    case True
    then show ?thesis using xs by simp
  next
    case False
    then have "NaN \<in> set ys" using assms xs by auto
    then have "([x] @ ys) ! argmin_loop x 0 1 ys = NaN
        \<and> (\<forall>j<argmin_loop x 0 1 ys. ([x] @ ys) ! j \<noteq> NaN)"
      using False by (intro argmin_loop_first_nan) simp_all
    then show ?thesis using xs False by simp
  qed
qed

lemma argmin_map_first_nan:
  assumes "NaN \<in> f ` set cs"
  shows "f (cs ! argmin (map f cs)) = NaN \<and> (\<forall>j<argmin (map f cs). f (cs ! j) \<noteq> NaN)"
proof -
  let ?ts = "map f cs"
  have n: "NaN \<in> set ?ts" using assms by simp
  then have ne: "?ts \<noteq> []" by auto
  have b: "argmin ?ts < length cs" using argmin_bound [OF ne] by simp
  have fn: "?ts ! argmin ?ts = NaN \<and> (\<forall>j<argmin ?ts. ?ts ! j \<noteq> NaN)"
    by (rule argmin_first_nan [OF n])
  show ?thesis
  proof (intro conjI allI impI)
    show "f (cs ! argmin ?ts) = NaN" using fn b by simp
    fix j assume j: "j < argmin ?ts"
    then have "j < length cs" using b by simp
    moreover have "?ts ! j \<noteq> NaN" using fn j by simp
    ultimately show "f (cs ! j) \<noteq> NaN" by simp
  qed
qed

section \<open>The prediction of the single-model classifier\<close>

lemma upt_zip_Cons: "zip [k..<k + length (c # cs)] (c # cs) = (k, c) # zip [Suc k..<Suc k + length cs] cs"
proof -
  have "[k..<k + length (c # cs)] = k # [Suc k..<Suc k + length cs]"
    by (simp add: upt_conv_Cons del: upt_Suc)
  then show ?thesis by (simp only: zip_Cons_Cons)
qed

lemma take_Suc_update: "k < length row \<Longrightarrow> take (Suc k) (row[k := s]) = take k row @ [s]"
  by (simp add: take_Suc_conv_app_nth)

lemma fill_step:
  assumes "k < length row"
  shows "take (Suc k) (row[k := s]) @ ys @ drop (Suc k + n) (row[k := s])
       = take k row @ (s # ys) @ drop (k + Suc n) row"
  using assms by (simp add: take_Suc_update)

lemma distance_fitness_total:
  assumes "wf_array X" and "ncols X = length m" and "length d = length m"
  shows "distance_fitness d X m = Inr (fl_sum (map (\<lambda>r. row_dist d r m) (rows X)))"
  using pairwise_rows [OF assms] by (simp add: distance_fitness_def)

lemma mec_predict_loop_fill:
  assumes "wf_array X" and "length (mec_distance st) = ncols X"
    and "\<forall>c \<in> set cs. \<exists>m. mec_models st c = Some m \<and> length m = ncols X"
    and "\<forall>row \<in> set R. length row = W" and "k + length cs \<le> W"
  shows "mec_predict_loop st X R (zip [k..<k + length cs] cs)
       = Inr (map (\<lambda>row. take k row @ map (mec_total st X) cs @ drop (k + length cs) row) R)"
  using assms(3-)
proof (induction cs arbitrary: k R)
  case Nil
  then show ?case by simp
next
  case (Cons c cs)
  obtain m where m: "mec_models st c = Some m" "length m = ncols X"
    using Cons.prems(1) by auto
  have s: "distance_fitness (mec_distance st) X m = Inr (mec_total st X c)"
    using distance_fitness_total [OF assms(1), of m "mec_distance st"] m assms(2)
    by (simp add: mec_total_def)
  let ?R1 = "set_col_scalar R k (mec_total st X c)"
  have IH: "mec_predict_loop st X ?R1 (zip [Suc k..<Suc k + length cs] cs)
       = Inr (map (\<lambda>row. take (Suc k) row @ map (mec_total st X) cs @ drop (Suc k + length cs) row) ?R1)"
    by (rule Cons.IH) (use Cons.prems in \<open>auto simp: set_col_scalar_def\<close>)
  have rows: "map (\<lambda>row. take (Suc k) row @ map (mec_total st X) cs @ drop (Suc k + length cs) row) ?R1
      = map (\<lambda>row. take k row @ map (mec_total st X) (c # cs) @ drop (k + length (c # cs)) row) R"
    unfolding set_col_scalar_def map_map comp_def
  proof (rule map_cong [OF refl])
    fix row assume "row \<in> set R"
    then have "k < length row" using Cons.prems by auto
    then show "take (Suc k) (row[k := mec_total st X c]) @ map (mec_total st X) cs
          @ drop (Suc k + length cs) (row[k := mec_total st X c])
        = take k row @ map (mec_total st X) (c # cs) @ drop (k + length (c # cs)) row"
      using fill_step [of k row "mec_total st X c" "map (mec_total st X) cs" "length cs"] by simp
  qed
  show ?case
    by (simp only: upt_zip_Cons mec_predict_loop.simps m s option.case sum.case IH rows)
qed

lemma mec_predict_closed:
  assumes "mec_fitted st (ncols X)" and "wf_array X"
  shows "mec_predict st X
       = Inr (replicate (nrows X) (mec_classes st ! argmin (map (mec_total st X) (mec_classes st))))"
proof -
  let ?cs = "mec_classes st"
  have "mec_predict_loop st X (np_zeros (nrows X) (length ?cs)) (zip [0..<0 + length ?cs] ?cs)
      = Inr (map (\<lambda>row. take 0 row @ map (mec_total st X) ?cs @ drop (0 + length ?cs) row)
               (np_zeros (nrows X) (length ?cs)))"
    by (rule mec_predict_loop_fill [where W = "length ?cs"])
       (use assms in \<open>auto simp: mec_fitted_def np_zeros_def\<close>)
  then have "mec_predict_loop st X (np_zeros (nrows X) (length ?cs)) (enumerate_from0 ?cs)
      = Inr (replicate (nrows X) (map (mec_total st X) ?cs))"
    by (simp add: enumerate_from0_def np_zeros_def)
  moreover have "?cs \<noteq> []" using assms(1) by (simp add: mec_fitted_def)
  ultimately show ?thesis
    by (simp add: mec_predict_def take_argmin_def)
qed

lemma ex_mec_fitted: "mec_fitted ex_mec (ncols ex_query)"
  by (simp add: mec_fitted_def ex_mec_def ex_query_def)

lemma ex_query_wf: "wf_array ex_query"
  by (simp add: wf_array_def ex_query_def)

lemma ex_totals: "map (mec_total ex_mec ex_query) (mec_classes ex_mec) = [Fin 2, Fin 1]"
  by (simp add: mec_total_def ex_mec_def ex_query_def row_dist_def fl_sum_def)

text \<open>
  Claim C10, as amended. For a fitted single-model classifier and a query set of the
  fitted feature count, \<^verbatim>\<open>predict\<close> gives every row the same label: the class at the
  position that \<^verbatim>\<open>np.argmin\<close> selects among the classes' total distances, each summed
  over all rows of the query set. When no total is NaN, that class has the least total
  and is the first such class in the class order; when some total is NaN, it is the
  first class whose total is NaN.
\<close>

theorem mec_predict_same_label:
  assumes "mec_fitted st (ncols X)" and "wf_array X"
  shows "mec_predict st X = Inr (replicate (nrows X) (mec_classes st ! mec_best st X))
       \<and> mec_best st X < length (mec_classes st)
       \<and> (NaN \<notin> mec_total st X ` set (mec_classes st) \<longrightarrow>
            (\<forall>j<length (mec_classes st).
               fl_le (mec_total st X (mec_classes st ! mec_best st X))
                     (mec_total st X (mec_classes st ! j)))
          \<and> (\<forall>j<mec_best st X.
               \<not> fl_le (mec_total st X (mec_classes st ! j))
                       (mec_total st X (mec_classes st ! mec_best st X))))
       \<and> (NaN \<in> mec_total st X ` set (mec_classes st) \<longrightarrow>
            mec_total st X (mec_classes st ! mec_best st X) = NaN
          \<and> (\<forall>j<mec_best st X. mec_total st X (mec_classes st ! j) \<noteq> NaN))"
proof -
  have ne: "mec_classes st \<noteq> []" using assms(1) by (simp add: mec_fitted_def)
  have p: "mec_predict st X = Inr (replicate (nrows X) (mec_classes st ! mec_best st X))"
    using mec_predict_closed [OF assms] by (simp add: mec_best_def)
  have m: "mec_best st X < length (mec_classes st)
       \<and> (NaN \<notin> mec_total st X ` set (mec_classes st) \<longrightarrow>
            (\<forall>j<length (mec_classes st).
               fl_le (mec_total st X (mec_classes st ! mec_best st X))
                     (mec_total st X (mec_classes st ! j)))
          \<and> (\<forall>j<mec_best st X.
               \<not> fl_le (mec_total st X (mec_classes st ! j))
                       (mec_total st X (mec_classes st ! mec_best st X))))"
    unfolding mec_best_def by (rule argmin_map_first_min [OF ne])
  have n: "NaN \<in> mec_total st X ` set (mec_classes st) \<longrightarrow>
            mec_total st X (mec_classes st ! mec_best st X) = NaN
          \<and> (\<forall>j<mec_best st X. mec_total st X (mec_classes st ! j) \<noteq> NaN)"
    unfolding mec_best_def by (intro impI argmin_map_first_nan)
  show ?thesis
    by (intro conjI p conjunct1 [OF m] conjunct2 [OF m] n)
qed

theorem mec_predict_same_label_witness:
  "mec_fitted ex_mec (ncols ex_query) \<and> wf_array ex_query
   \<and> mec_best ex_mec ex_query = 1
   \<and> mec_predict ex_mec ex_query = Inr [1, 1, 1]"
proof -
  have b: "mec_best ex_mec ex_query = 1"
    by (simp add: mec_best_def ex_totals)
  have "mec_predict ex_mec ex_query
      = Inr (replicate (nrows ex_query) (mec_classes ex_mec ! mec_best ex_mec ex_query))"
    using mec_predict_same_label [OF ex_mec_fitted ex_query_wf] by blast
  also have "replicate (nrows ex_query) (mec_classes ex_mec ! mec_best ex_mec ex_query) = [1, 1, 1]"
    by (simp add: b) (simp add: ex_mec_def ex_query_def nrows_def numeral_3_eq_3)
  finally show ?thesis using ex_mec_fitted ex_query_wf b by simp
qed

text \<open>
  Claim C1. The specification has \<^verbatim>\<open>predict\<close> score each row by its own distance to each
  class model. On the query rows \<open>0, 10, 10\<close>, with the models \<open>0\<close> and \<open>10\<close>, the code
  answers class 1 for all three rows, while the row-wise rule answers class 0 for the
  first: the score the code writes for a class is the sum over all rows.
\<close>

theorem mec_predict_not_rowwise:
  "mec_predict ex_mec ex_query = Inr [1, 1, 1]
   \<and> mec_predict_rowwise ex_mec ex_query = Inr [0, 1, 1]"
proof
  show "mec_predict ex_mec ex_query = Inr [1, 1, 1]"
    by (simp add: mec_predict_def enumerate_from0_def np_zeros_def nrows_def take_argmin_def
        distance_fitness_def pairwise_def broadcast2_def bcast_row_def np_abs_def sum_axis1_def
        set_col_scalar_def fl_sum_def ex_mec_def ex_query_def)
  show "mec_predict_rowwise ex_mec ex_query = Inr [0, 1, 1]"
    by (simp add: mec_predict_rowwise_def row_dist_def fl_sum_def ex_mec_def ex_query_def)
qed

section \<open>The prediction of the ensemble classifier\<close>

lemma emec_row_distance_pairwise: "emec_row_distance d X m = pairwise d X m"
  by (simp add: emec_row_distance_def pairwise_def)

lemma set_col_rows:
  "set_col R k (map f rs) = map2 (\<lambda>row r. row[k := f r]) R rs"
  by (simp add: set_col_def zip_map2 split_def)

lemma emec_model_loop_fill:
  assumes "wf_array X" and "length (emec_d st) = ncols X"
    and "\<forall>m \<in> set ms. length m = ncols X"
    and "length R = nrows X" and "\<forall>row \<in> set R. length row = emec_n_models st"
    and "k + length ms \<le> emec_n_models st"
  shows "emec_model_loop st X R (zip [k..<k + length ms] ms)
       = Inr (map2 (\<lambda>row r. take k row @ map (row_dist (emec_d st) r) ms @ drop (k + length ms) row)
                R (rows X))"
  using assms(3-)
proof (induction ms arbitrary: k R)
  case Nil
  have "map2 (\<lambda>row r. take k row @ drop k row) R (rows X) = R"
    using Nil.prems by (intro nth_equalityI) (simp_all add: nrows_def)
  then show ?case by simp
next
  case (Cons m ms)
  let ?d = "emec_d st"
  have v: "emec_row_distance ?d X m = Inr (map (\<lambda>r. row_dist ?d r m) (rows X))"
    using pairwise_rows [OF assms(1), of m ?d] Cons.prems(1) assms(2)
    by (simp add: emec_row_distance_pairwise)
  have k: "k < emec_n_models st" using Cons.prems by simp
  let ?R1 = "map2 (\<lambda>row r. row[k := row_dist ?d r m]) R (rows X)"
  have IH: "emec_model_loop st X ?R1 (zip [Suc k..<Suc k + length ms] ms)
       = Inr (map2 (\<lambda>row r. take (Suc k) row @ map (row_dist ?d r) ms @ drop (Suc k + length ms) row)
                ?R1 (rows X))"
  proof (rule Cons.IH)
    show "\<forall>m \<in> set ms. length m = ncols X" using Cons.prems by simp
    show "length ?R1 = nrows X" using Cons.prems by (simp add: nrows_def)
    show "\<forall>row \<in> set ?R1. length row = emec_n_models st"
      using Cons.prems by (auto dest!: set_zip_leftD)
    show "Suc k + length ms \<le> emec_n_models st" using Cons.prems by simp
  qed
  have rows: "map2 (\<lambda>row r. take (Suc k) row @ map (row_dist ?d r) ms @ drop (Suc k + length ms) row)
                ?R1 (rows X)
      = map2 (\<lambda>row r. take k row @ map (row_dist ?d r) (m # ms) @ drop (k + length (m # ms)) row)
                R (rows X)"
  proof (rule nth_equalityI)
    show "length (map2 (\<lambda>row r. take (Suc k) row @ map (row_dist ?d r) ms @ drop (Suc k + length ms) row)
                ?R1 (rows X))
        = length (map2 (\<lambda>row r. take k row @ map (row_dist ?d r) (m # ms) @ drop (k + length (m # ms)) row)
                R (rows X))"
      by simp
  next
    fix i
    assume "i < length (map2 (\<lambda>row r. take (Suc k) row @ map (row_dist ?d r) ms @ drop (Suc k + length ms) row)
                ?R1 (rows X))"
    then have i: "i < length R" "i < length (rows X)" by simp_all
    then have "k < length (R ! i)" using Cons.prems(3) k by simp
    then have "take (Suc k) ((R ! i)[k := row_dist ?d (rows X ! i) m]) @ map (row_dist ?d (rows X ! i)) ms
          @ drop (Suc k + length ms) ((R ! i)[k := row_dist ?d (rows X ! i) m])
        = take k (R ! i) @ (row_dist ?d (rows X ! i) m # map (row_dist ?d (rows X ! i)) ms)
          @ drop (k + Suc (length ms)) (R ! i)"
      by (rule fill_step)
    then show "map2 (\<lambda>row r. take (Suc k) row @ map (row_dist ?d r) ms @ drop (Suc k + length ms) row)
                ?R1 (rows X) ! i
        = map2 (\<lambda>row r. take k row @ map (row_dist ?d r) (m # ms) @ drop (k + length (m # ms)) row)
                R (rows X) ! i"
      using i by simp
  qed
  show ?case
    by (simp only: upt_zip_Cons emec_model_loop.simps v sum.case k if_True set_col_rows IH rows)
qed

lemma emec_model_loop_full:
  assumes "wf_array X" and "length (emec_d st) = ncols X"
    and "\<forall>m \<in> set ms. length m = ncols X" and "length ms = emec_n_models st"
    and "length R = nrows X" and "\<forall>row \<in> set R. length row = emec_n_models st"
  shows "emec_model_loop st X R (enumerate_from0 ms)
       = Inr (map (\<lambda>r. map (row_dist (emec_d st) r) ms) (rows X))"
proof -
  have "emec_model_loop st X R (zip [0..<0 + length ms] ms)
       = Inr (map2 (\<lambda>row r. take 0 row @ map (row_dist (emec_d st) r) ms @ drop (0 + length ms) row)
                R (rows X))"
    by (rule emec_model_loop_fill) (use assms in simp_all)
  moreover have "map2 (\<lambda>row r. take 0 row @ map (row_dist (emec_d st) r) ms @ drop (0 + length ms) row)
                R (rows X)
      = map (\<lambda>r. map (row_dist (emec_d st) r) ms) (rows X)"
    using assms(4-) by (intro nth_equalityI) (simp_all add: nrows_def)
  ultimately show ?thesis by (simp add: enumerate_from0_def)
qed

lemma emec_predict_loop_fill:
  assumes "wf_array X" and "length (emec_d st) = ncols X"
    and "\<forall>c \<in> set cs. \<exists>ms. emec_models st c = Some ms \<and> length ms = emec_n_models st
           \<and> (\<forall>m \<in> set ms. length m = ncols X)"
    and "length M = nrows X" and "\<forall>row \<in> set M. length row = W" and "k + length cs \<le> W"
    and "length R = nrows X" and "\<forall>row \<in> set R. length row = emec_n_models st"
  shows "emec_predict_loop st X M R (zip [k..<k + length cs] cs)
       = Inr (map2 (\<lambda>row r. take k row @ map (emec_score st r) cs @ drop (k + length cs) row)
                M (rows X))"
  using assms(3-)
proof (induction cs arbitrary: k M R)
  case Nil
  have "map2 (\<lambda>row r. take k row @ drop k row) M (rows X) = M"
    using Nil.prems by (intro nth_equalityI) (simp_all add: nrows_def)
  then show ?case by simp
next
  case (Cons c cs)
  let ?d = "emec_d st"
  obtain ms where ms: "emec_models st c = Some ms" "length ms = emec_n_models st"
      "\<forall>m \<in> set ms. length m = ncols X"
    using Cons.prems(1) by auto
  let ?R' = "map (\<lambda>r. map (row_dist ?d r) ms) (rows X)"
  have inner: "emec_model_loop st X R (enumerate_from0 ms) = Inr ?R'"
    by (rule emec_model_loop_full) (use assms(1,2) ms Cons.prems in simp_all)
  have sums: "map fl_sum ?R' = map (\<lambda>r. emec_score st r c) (rows X)"
    by (simp add: emec_score_def ms comp_def)
  have kW: "k < W" using Cons.prems by simp
  let ?M1 = "map2 (\<lambda>row r. row[k := emec_score st r c]) M (rows X)"
  have step: "set_col M k (map fl_sum ?R') = ?M1"
    unfolding sums by (rule set_col_rows)
  have IH: "emec_predict_loop st X ?M1 ?R' (zip [Suc k..<Suc k + length cs] cs)
       = Inr (map2 (\<lambda>row r. take (Suc k) row @ map (emec_score st r) cs @ drop (Suc k + length cs) row)
                ?M1 (rows X))"
  proof (rule Cons.IH)
    show "\<forall>c \<in> set cs. \<exists>ms. emec_models st c = Some ms \<and> length ms = emec_n_models st
           \<and> (\<forall>m \<in> set ms. length m = ncols X)"
      using Cons.prems by simp
    show "length ?M1 = nrows X" using Cons.prems by (simp add: nrows_def)
    show "\<forall>row \<in> set ?M1. length row = W"
      using Cons.prems by (auto dest!: set_zip_leftD)
    show "Suc k + length cs \<le> W" using Cons.prems by simp
    show "length ?R' = nrows X" by (simp add: nrows_def)
    show "\<forall>row \<in> set ?R'. length row = emec_n_models st" using ms by auto
  qed
  have rows: "map2 (\<lambda>row r. take (Suc k) row @ map (emec_score st r) cs @ drop (Suc k + length cs) row)
                ?M1 (rows X)
      = map2 (\<lambda>row r. take k row @ map (emec_score st r) (c # cs) @ drop (k + length (c # cs)) row)
                M (rows X)"
  proof (rule nth_equalityI)
    show "length (map2 (\<lambda>row r. take (Suc k) row @ map (emec_score st r) cs @ drop (Suc k + length cs) row)
                ?M1 (rows X))
        = length (map2 (\<lambda>row r. take k row @ map (emec_score st r) (c # cs) @ drop (k + length (c # cs)) row)
                M (rows X))"
      by simp
  next
    fix i
    assume "i < length (map2 (\<lambda>row r. take (Suc k) row @ map (emec_score st r) cs @ drop (Suc k + length cs) row)
                ?M1 (rows X))"
    then have i: "i < length M" "i < length (rows X)" by simp_all
    then have "k < length (M ! i)" using Cons.prems(3) kW by simp
    then have "take (Suc k) ((M ! i)[k := emec_score st (rows X ! i) c]) @ map (emec_score st (rows X ! i)) cs
          @ drop (Suc k + length cs) ((M ! i)[k := emec_score st (rows X ! i) c])
        = take k (M ! i) @ (emec_score st (rows X ! i) c # map (emec_score st (rows X ! i)) cs)
          @ drop (k + Suc (length cs)) (M ! i)"
      by (rule fill_step)
    then show "map2 (\<lambda>row r. take (Suc k) row @ map (emec_score st r) cs @ drop (Suc k + length cs) row)
                ?M1 (rows X) ! i
        = map2 (\<lambda>row r. take k row @ map (emec_score st r) (c # cs) @ drop (k + length (c # cs)) row)
                M (rows X) ! i"
      using i by simp
  qed
  show ?case
    by (simp only: upt_zip_Cons emec_predict_loop.simps ms option.case inner sum.case step
        IH rows)
qed

lemma emec_score_matrix:
  assumes "emec_fitted st (ncols X)" and "wf_array X"
  shows "emec_predict_loop st X (np_zeros (nrows X) (length (emec_classes st)))
           (np_zeros (nrows X) (emec_n_models st)) (enumerate_from0 (emec_classes st))
       = Inr (map (\<lambda>r. map (emec_score st r) (emec_classes st)) (rows X))"
proof -
  let ?cs = "emec_classes st"
  let ?M = "np_zeros (nrows X) (length ?cs)"
  let ?R = "np_zeros (nrows X) (emec_n_models st)"
  have "emec_predict_loop st X ?M ?R (zip [0..<0 + length ?cs] ?cs)
       = Inr (map2 (\<lambda>row r. take 0 row @ map (emec_score st r) ?cs @ drop (0 + length ?cs) row)
                ?M (rows X))"
    by (rule emec_predict_loop_fill [where W = "length ?cs"])
       (use assms in \<open>auto simp: emec_fitted_def np_zeros_def\<close>)
  moreover have "map2 (\<lambda>row r. take 0 row @ map (emec_score st r) ?cs @ drop (0 + length ?cs) row)
                ?M (rows X)
      = map (\<lambda>r. map (emec_score st r) ?cs) (rows X)"
    by (intro nth_equalityI) (simp_all add: nrows_def np_zeros_def)
  ultimately show ?thesis by (simp add: enumerate_from0_def)
qed


lemma emec_predict_closed:
  assumes "emec_fitted st (ncols X)" and "wf_array X"
  shows "emec_predict st X = Inr (map (\<lambda>r. emec_classes st ! emec_best st r) (rows X))"
proof -
  have "emec_classes st \<noteq> []" using assms(1) by (simp add: emec_fitted_def)
  then show ?thesis
    by (simp add: emec_predict_def emec_score_matrix [OF assms] take_argmin_def emec_best_def
        comp_def)
qed

lemma ex_emec_fitted: "emec_fitted ex_emec (ncols ex_query)"
  by (simp add: emec_fitted_def ex_emec_def ex_query_def)

text \<open>
  Claim C2, as amended. For a fitted ensemble classifier and a query set of the fitted
  feature count, the score matrix that \<^verbatim>\<open>predict\<close> builds holds, for row \<open>i\<close> and class
  \<open>c\<close>, the sum over the \<^verbatim>\<open>n_models\<close> models of \<open>c\<close> of the distance of row \<open>i\<close> to the
  model (the matrix \<open>R\<close>, shared by all classes, leaves nothing behind since every class
  fills all its columns); \<^verbatim>\<open>predict\<close> answers, per row, the class at the position that
  \<^verbatim>\<open>np.argmin\<close> selects: for scores without NaN the first class of least score, and
  otherwise the first class whose score is NaN.
\<close>

theorem emec_predict_min_score:
  assumes "emec_fitted st (ncols X)" and "wf_array X"
  shows "emec_predict_loop st X (np_zeros (nrows X) (length (emec_classes st)))
           (np_zeros (nrows X) (emec_n_models st)) (enumerate_from0 (emec_classes st))
         = Inr (map (\<lambda>r. map (emec_score st r) (emec_classes st)) (rows X))
       \<and> emec_predict st X = Inr (map (\<lambda>r. emec_classes st ! emec_best st r) (rows X))
       \<and> (\<forall>r. emec_best st r < length (emec_classes st)
            \<and> (NaN \<notin> emec_score st r ` set (emec_classes st) \<longrightarrow>
                 (\<forall>j<length (emec_classes st).
                    fl_le (emec_score st r (emec_classes st ! emec_best st r))
                          (emec_score st r (emec_classes st ! j)))
               \<and> (\<forall>j<emec_best st r.
                    \<not> fl_le (emec_score st r (emec_classes st ! j))
                            (emec_score st r (emec_classes st ! emec_best st r))))
            \<and> (NaN \<in> emec_score st r ` set (emec_classes st) \<longrightarrow>
                 emec_score st r (emec_classes st ! emec_best st r) = NaN
               \<and> (\<forall>j<emec_best st r. emec_score st r (emec_classes st ! j) \<noteq> NaN)))"
proof (intro conjI allI)
  show "emec_predict_loop st X (np_zeros (nrows X) (length (emec_classes st)))
           (np_zeros (nrows X) (emec_n_models st)) (enumerate_from0 (emec_classes st))
         = Inr (map (\<lambda>r. map (emec_score st r) (emec_classes st)) (rows X))"
    by (rule emec_score_matrix [OF assms])
  show "emec_predict st X = Inr (map (\<lambda>r. emec_classes st ! emec_best st r) (rows X))"
    by (rule emec_predict_closed [OF assms])
  have ne: "emec_classes st \<noteq> []" using assms(1) by (simp add: emec_fitted_def)
  fix r
  show "emec_best st r < length (emec_classes st)"
    using argmin_map_first_min [OF ne, of "emec_score st r"] by (simp add: emec_best_def)
  show "NaN \<notin> emec_score st r ` set (emec_classes st) \<longrightarrow>
          (\<forall>j<length (emec_classes st).
             fl_le (emec_score st r (emec_classes st ! emec_best st r))
                   (emec_score st r (emec_classes st ! j)))
        \<and> (\<forall>j<emec_best st r.
             \<not> fl_le (emec_score st r (emec_classes st ! j))
                     (emec_score st r (emec_classes st ! emec_best st r)))"
    using argmin_map_first_min [OF ne, of "emec_score st r"] unfolding emec_best_def by blast
  show "NaN \<in> emec_score st r ` set (emec_classes st) \<longrightarrow>
          emec_score st r (emec_classes st ! emec_best st r) = NaN
        \<and> (\<forall>j<emec_best st r. emec_score st r (emec_classes st ! j) \<noteq> NaN)"
    unfolding emec_best_def by (intro impI argmin_map_first_nan)
qed

theorem emec_predict_min_score_witness:
  "emec_fitted ex_emec (ncols ex_query) \<and> wf_array ex_query
   \<and> emec_predict ex_emec ex_query = Inr [0, 1, 1]"
proof -
  have "emec_predict ex_emec ex_query
      = Inr (map (\<lambda>r. emec_classes ex_emec ! emec_best ex_emec r) (rows ex_query))"
    using emec_predict_min_score [OF ex_emec_fitted ex_query_wf] by blast
  also have "map (\<lambda>r. emec_classes ex_emec ! emec_best ex_emec r) (rows ex_query) = [0, 1, 1]"
    by (simp add: emec_best_def emec_score_def row_dist_def fl_sum_def ex_emec_def ex_query_def)
  finally show ?thesis using ex_emec_fitted ex_query_wf by simp
qed

section \<open>A feature of range zero\<close>

lemma foldl_fmax_mem: "foldl fl_fmax x xs \<in> set (x # xs)"
proof (induction xs arbitrary: x)
  case Nil
  then show ?case by simp
next
  case (Cons y ys)
  have "fl_fmax x y = x \<or> fl_fmax x y = y" by (simp add: fl_fmax_def)
  then show ?case using Cons.IH [of "fl_fmax x y"] by auto
qed

lemma foldl_fmin_mem: "foldl fl_fmin x xs \<in> set (x # xs)"
proof (induction xs arbitrary: x)
  case Nil
  then show ?case by simp
next
  case (Cons y ys)
  have "fl_fmin x y = x \<or> fl_fmin x y = y" by (simp add: fl_fmin_def)
  then show ?case using Cons.IH [of "fl_fmin x y"] by auto
qed

lemma column_nonempty: "rows X \<noteq> [] \<Longrightarrow> column X j \<noteq> []"
  by (simp add: column_def)

lemma col_max_mem:
  assumes "rows X \<noteq> []"
  shows "foldl fl_fmax (hd (column X j)) (tl (column X j)) \<in> set (column X j)"
  using foldl_fmax_mem [of "hd (column X j)" "tl (column X j)"] column_nonempty [OF assms, of j]
  by simp

lemma col_min_mem:
  assumes "rows X \<noteq> []"
  shows "foldl fl_fmin (hd (column X j)) (tl (column X j)) \<in> set (column X j)"
  using foldl_fmin_mem [of "hd (column X j)" "tl (column X j)"] column_nonempty [OF assms, of j]
  by simp

lemma column_finite:
  assumes "wf_array X" and "all_finite X" and "j < ncols X" and "x \<in> set (column X j)"
  shows "is_fin x"
  using assms by (auto simp: column_def wf_array_def all_finite_def)

lemma stoean_f_value:
  assumes "rows X \<noteq> []"
  shows "stoean_f X = Inr (map (\<lambda>j. fl_sub (foldl fl_fmax (hd (column X j)) (tl (column X j)))
                                       (foldl fl_fmin (hd (column X j)) (tl (column X j))))
                             [0..<ncols X])"
  using assms by (simp add: stoean_f_def nanmax_def nanmin_def map2_map_map)

lemma is_fin_sub: "is_fin x \<Longrightarrow> is_fin y \<Longrightarrow> is_fin (fl_sub x y)"
  by (cases x; cases y) simp_all

lemma fl_sub_self: "is_fin x \<Longrightarrow> fl_sub x x = Fin 0"
  by (cases x) simp_all

lemma fl_sum_no_NInf: "NInf \<notin> set xs \<Longrightarrow> fl_sum xs \<noteq> NInf"
proof (induction xs)
  case Nil
  then show ?case by (simp add: fl_sum_Nil)
next
  case (Cons x xs)
  then have "x \<noteq> NInf" and "fl_sum xs \<noteq> NInf" by auto
  then show ?case by (cases x; cases "fl_sum xs") (simp_all add: fl_sum_Cons)
qed

lemma fl_sum_nonfinite:
  assumes "NInf \<notin> set xs" and "\<exists>x \<in> set xs. x = PInf \<or> x = NaN"
  shows "fl_sum xs = PInf \<or> fl_sum xs = NaN"
  using assms
proof (induction xs)
  case Nil
  then show ?case by simp
next
  case (Cons x xs)
  have x: "x \<noteq> NInf" and s: "fl_sum xs \<noteq> NInf"
    using Cons.prems(1) fl_sum_no_NInf [of xs] by auto
  show ?case
  proof (cases "x = PInf \<or> x = NaN")
    case True
    then show ?thesis using s by (cases "fl_sum xs") (auto simp: fl_sum_Cons)
  next
    case False
    then have "fl_sum xs = PInf \<or> fl_sum xs = NaN" using Cons by auto
    then show ?thesis using x by (cases x) (auto simp: fl_sum_Cons)
  qed
qed

lemma term_cases:
  assumes "is_fin x" and "is_fin y" and "is_fin z"
  shows "fl_div (fl_abs (fl_sub x y)) z \<noteq> NInf
       \<and> (z = Fin 0 \<longrightarrow> fl_div (fl_abs (fl_sub x y)) z = PInf \<or> fl_div (fl_abs (fl_sub x y)) z = NaN)"
  using assms by (cases x; cases y; cases z) auto

lemma row_dist_zero_scale:
  assumes "length r = length d" and "length c = length d"
    and "\<forall>x \<in> set r. is_fin x" and "\<forall>x \<in> set c. is_fin x" and "\<forall>x \<in> set d. is_fin x"
    and "f < length d" and "d ! f = Fin 0"
  shows "row_dist d r c = PInf \<or> row_dist d r c = NaN"
proof -
  let ?ts = "map2 fl_div (map fl_abs (map2 fl_sub r c)) d"
  have len: "length ?ts = length d" using assms(1,2) by simp
  have nth: "\<And>i. i < length d \<Longrightarrow> ?ts ! i = fl_div (fl_abs (fl_sub (r ! i) (c ! i))) (d ! i)"
    using assms(1,2) by simp
  have fin: "\<And>i. i < length d \<Longrightarrow> is_fin (r ! i) \<and> is_fin (c ! i) \<and> is_fin (d ! i)"
    using assms(1-5) by simp
  have "NInf \<notin> set ?ts"
  proof
    assume "NInf \<in> set ?ts"
    then obtain i where "i < length d" "?ts ! i = NInf"
      using len by (metis in_set_conv_nth)
    then show False using nth [of i] fin [of i] term_cases [of "r ! i" "c ! i" "d ! i"] by simp
  qed
  moreover have "?ts ! f = PInf \<or> ?ts ! f = NaN"
    using nth [OF assms(6)] fin [OF assms(6)] term_cases [of "r ! f" "c ! f" "d ! f"] assms(7)
    by simp
  then have "\<exists>x \<in> set ?ts. x = PInf \<or> x = NaN"
    using len assms(6) by (metis nth_mem)
  ultimately show ?thesis
    unfolding row_dist_def by (rule fl_sum_nonfinite)
qed

text \<open>
  Claim C7, counterexample. The training set \<open>[[1, 5], [2, 5]]\<close> has a constant second
  feature; the scale vector is \<open>[1, 0]\<close>, and the distance computation of both classifiers
  returns infinities or NaN, no error.
\<close>

theorem zero_range_returns_inf:
  "stoean_f ex_train = Inr [Fin 1, Fin 0]
   \<and> pairwise [Fin 1, Fin 0] ex_train [Fin 1, Fin 4] = Inr [PInf, PInf]
   \<and> pairwise [Fin 1, Fin 0] ex_train [Fin 1, Fin 5] = Inr [NaN, NaN]
   \<and> emec_row_distance [Fin 1, Fin 0] ex_train [Fin 1, Fin 4] = Inr [PInf, PInf]"
proof (intro conjI)
  show "stoean_f ex_train = Inr [Fin 1, Fin 0]"
    by (simp add: stoean_f_def nanmax_def nanmin_def column_def fl_fmax_def fl_fmin_def
        ex_train_def upt_rec)
  show "pairwise [Fin 1, Fin 0] ex_train [Fin 1, Fin 4] = Inr [PInf, PInf]"
    by (simp add: pairwise_def broadcast2_def bcast_row_def np_abs_def sum_axis1_def fl_sum_def
        ex_train_def)
  show "pairwise [Fin 1, Fin 0] ex_train [Fin 1, Fin 5] = Inr [NaN, NaN]"
    by (simp add: pairwise_def broadcast2_def bcast_row_def np_abs_def sum_axis1_def fl_sum_def
        ex_train_def)
  show "emec_row_distance [Fin 1, Fin 0] ex_train [Fin 1, Fin 4] = Inr [PInf, PInf]"
    by (simp add: emec_row_distance_def broadcast2_def bcast_row_def np_abs_def sum_axis1_def
        fl_sum_def ex_train_def)
qed

lemma ex_train_wf: "wf_array ex_train"
  by (simp add: wf_array_def ex_train_def)

lemma ex_train_finite: "all_finite ex_train"
  by (simp add: all_finite_def ex_train_def)

section \<open>Fitting\<close>

text \<open>The two fitness functions add the same terms, the ensemble's over the whole array
  and the single-model one row by row; with exact sums they agree. Whether two sums of
  doubles taken in different orders agree to the last bit is a matter of rounding, for
  which see the last section.\<close>

lemma emec_distance_fitness_exact: "emec_distance_fitness d X c = distance_fitness d X c"
  by (simp add: emec_distance_fitness_def distance_fitness_def pairwise_def sum_all_def
      sum_axis1_def fl_sum_concat split: sum.splits)

lemma np_unique_set: "set (np_unique y) = set y"
  by (simp add: np_unique_def)

lemma np_unique_sorted: "sorted (np_unique y) \<and> distinct (np_unique y)"
  by (simp add: np_unique_def)

lemma select_rows_ncols: "ncols (select_rows X y c) = ncols X"
  by (simp add: select_rows_def)

lemma select_rows_subset: "set (rows (select_rows X y c)) \<subseteq> set (rows X)"
  by (auto simp: select_rows_def dest: set_zip_leftD)

lemma select_rows_wf: "wf_array X \<Longrightarrow> wf_array (select_rows X y c)"
  using select_rows_subset [of X y c] by (auto simp: wf_array_def select_rows_ncols)

lemma select_rows_nonempty:
  assumes "nrows X = length y" and "c \<in> set y"
  shows "rows (select_rows X y c) \<noteq> []"
proof -
  obtain i where i: "i < length y" "y ! i = c"
    using assms(2) by (auto simp: in_set_conv_nth)
  then have "(rows X ! i, c) \<in> set (zip (rows X) y)"
    using assms(1) by (auto simp: set_zip nrows_def)
  then have "(rows X ! i, c) \<in> set (filter (\<lambda>(r, l). l = c) (zip (rows X) y))" by simp
  then show ?thesis
    by (auto simp: select_rows_def filter_empty_conv)
qed

lemma fitness_empty:
  assumes "length c = F" and "length d = F"
  shows "distance_fitness d \<lparr>ncols = F, rows = []\<rparr> c = Inr (Fin 0)"
  using assms
  by (simp add: distance_fitness_def pairwise_def broadcast2_def np_abs_def sum_axis1_def
      fl_sum_Nil)

text \<open>
  Claim C8, counterexample. On a class subset without rows both fitness functions have
  the value 0 for a candidate, and \<^verbatim>\<open>build_for_class\<close> of both classifiers returns what
  the engine reports: nothing is raised.
\<close>

theorem empty_subset_no_error:
  "distance_fitness [Fin 1] ex_empty [Fin 7] = Inr (Fin 0)
   \<and> emec_distance_fitness [Fin 1] ex_empty [Fin 7] = Inr (Fin 0)
   \<and> mec_build_for_class ex_ga 10 [Fin 1] 7 ex_empty = (Inr [Fin 7], 8)
   \<and> emec_build_for_class ex_ga 10 [Fin 1] 7 ex_empty = (Inr [Fin 7], 8)"
proof -
  have a: "distance_fitness [Fin 1] ex_empty [Fin 7] = Inr (Fin 0)"
    by (simp add: ex_empty_def fitness_empty)
  then have b: "emec_distance_fitness [Fin 1] ex_empty [Fin 7] = Inr (Fin 0)"
    by (simp add: emec_distance_fitness_exact)
  have n: "ncols ex_empty = 1" by (simp add: ex_empty_def)
  show ?thesis
    using a b by (simp add: mec_build_for_class_def emec_build_for_class_def ex_ga_def n)
qed

text \<open>
  Claim C8, as amended. \<^verbatim>\<open>fit\<close> takes its classes from the labels themselves, so every
  class has at least one training row and no empty subset reaches \<^verbatim>\<open>build_for_class\<close>;
  and nothing raises on an empty subset: both fitness functions are 0 there for every
  candidate of the subset's width.
\<close>

theorem class_subsets_nonempty:
  assumes "nrows X = length y"
  shows "(\<forall>c \<in> set (np_unique y). rows (select_rows X y c) \<noteq> [])
       \<and> (\<forall>d c. length c = F \<and> length d = F \<longrightarrow>
             distance_fitness d \<lparr>ncols = F, rows = []\<rparr> c = Inr (Fin 0)
           \<and> emec_distance_fitness d \<lparr>ncols = F, rows = []\<rparr> c = Inr (Fin 0))"
  using select_rows_nonempty [OF assms]
  by (simp add: np_unique_set emec_distance_fitness_exact fitness_empty)

theorem class_subsets_nonempty_witness:
  "nrows ex_query = length [0::nat, 1, 0]
   \<and> rows (select_rows ex_query [0::nat, 1, 0] 1) \<noteq> []
   \<and> rows (select_rows ex_query [0::nat, 1, 0] 1) = [[Fin 10]]
   \<and> distance_fitness [Fin 1] \<lparr>ncols = 1, rows = []\<rparr> [Fin 7] = Inr (Fin 0)"
proof -
  have l: "nrows ex_query = length [0::nat, 1, 0]" by (simp add: nrows_def ex_query_def)
  have m: "(1::nat) \<in> set (np_unique [0::nat, 1, 0])" by (simp add: np_unique_set)
  have t: "(\<forall>c \<in> set (np_unique [0::nat, 1, 0]). rows (select_rows ex_query [0::nat, 1, 0] c) \<noteq> [])
       \<and> (\<forall>d c. length c = 1 \<and> length d = 1 \<longrightarrow>
             distance_fitness d \<lparr>ncols = 1, rows = []\<rparr> c = Inr (Fin 0)
           \<and> emec_distance_fitness d \<lparr>ncols = 1, rows = []\<rparr> c = Inr (Fin 0))"
    by (rule class_subsets_nonempty [OF l])
  have a: "rows (select_rows ex_query [0::nat, 1, 0] 1) \<noteq> []" using t m by blast
  have "length [Fin 7] = 1 \<and> length [Fin 1] = 1" by simp
  then have b: "distance_fitness [Fin 1] \<lparr>ncols = 1, rows = []\<rparr> [Fin 7] = Inr (Fin 0)"
    using t by blast
  have c: "rows (select_rows ex_query [0::nat, 1, 0] 1) = [[Fin 10]]"
    by (simp add: select_rows_def ex_query_def)
  show ?thesis by (intro conjI l a c b)
qed

lemma stoean_f_length:
  assumes "rows X \<noteq> []"
  shows "\<exists>d. stoean_f X = Inr d \<and> length d = ncols X"
  using stoean_f_value [OF assms] by simp

lemma nanmax_nanmin_ok:
  assumes "rows X \<noteq> []"
  shows "\<exists>b a. nanmax X = Inr b \<and> nanmin X = Inr a \<and> length (map2 fl_sub b a) = ncols X"
  using assms by (simp add: nanmax_def nanmin_def)

lemma mec_build_ok:
  assumes "ga_ok ga" and "wf_array X" and "length d = ncols X"
  shows "\<exists>m rs'. mec_build_for_class ga n d rs X = (Inr m, rs') \<and> length m = ncols X"
proof -
  let ?p = "\<lparr>fitness_function = distance_fitness d X, elitism = 3, n_chromosomes = 100,
             n_genes = ncols X, p_mutation = 3 / 10\<rparr>"
  have "\<forall>c. length c = n_genes ?p \<longrightarrow> (\<exists>v. fitness_function ?p c = Inr v)"
    using distance_fitness_total [OF assms(2)] assms(3) by simp
  then have "\<exists>m rs'. ga ?p n rs = (Inr m, rs') \<and> length m = n_genes ?p"
    using assms(1) unfolding ga_ok_def by blast
  then show ?thesis by (simp add: mec_build_for_class_def)
qed

lemma emec_build_ok:
  assumes "ga_ok ga" and "wf_array X" and "length d = ncols X"
  shows "\<exists>m rs'. emec_build_for_class ga n d rs X = (Inr m, rs') \<and> length m = ncols X"
proof -
  let ?p = "\<lparr>fitness_function = emec_distance_fitness d X, elitism = 3, n_chromosomes = 100,
             n_genes = ncols X, p_mutation = 3 / 10\<rparr>"
  have "\<forall>c. length c = n_genes ?p \<longrightarrow> (\<exists>v. fitness_function ?p c = Inr v)"
    using distance_fitness_total [OF assms(2)] assms(3)
    by (simp add: emec_distance_fitness_exact)
  then have "\<exists>m rs'. ga ?p n rs = (Inr m, rs') \<and> length m = n_genes ?p"
    using assms(1) unfolding ga_ok_def by blast
  then show ?thesis by (simp add: emec_build_for_class_def)
qed

lemma mec_fit_loop_ok:
  assumes "ga_ok ga" and "wf_array X" and "length d = ncols X"
    and "\<forall>c \<in> S. \<exists>m. models c = Some m \<and> length m = ncols X"
  shows "\<exists>models'. mec_fit_loop ga n d X y models rs cs = Inr models'
           \<and> (\<forall>c \<in> S \<union> set cs. \<exists>m. models' c = Some m \<and> length m = ncols X)"
  using assms(4)
proof (induction cs arbitrary: models rs S)
  case Nil
  then show ?case by simp
next
  case (Cons c cs)
  obtain m rs' where b: "mec_build_for_class ga n d rs (select_rows X y c) = (Inr m, rs')"
      "length m = ncols X"
    using mec_build_ok [OF assms(1) select_rows_wf [OF assms(2)], of d y c n rs] assms(3)
    by (auto simp: select_rows_ncols)
  have "\<forall>c' \<in> insert c S. \<exists>m'. (models(c \<mapsto> m)) c' = Some m' \<and> length m' = ncols X"
    using Cons.prems b(2) by simp
  then obtain models' where
      "mec_fit_loop ga n d X y (models(c \<mapsto> m)) rs' cs = Inr models'"
      "\<forall>c' \<in> insert c S \<union> set cs. \<exists>m'. models' c' = Some m' \<and> length m' = ncols X"
    using Cons.IH [of "insert c S" "models(c \<mapsto> m)" rs'] by blast
  then show ?case using b(1) by simp
qed

lemma take_rows_ok:
  assumes "wf_array X" and "\<forall>i \<in> set idx. i < nrows X"
  shows "\<exists>S. take_rows X idx = Inr S \<and> wf_array S \<and> ncols S = ncols X"
  using assms by (auto simp: take_rows_def wf_array_def nrows_def)

lemma emec_resample_loop_ok:
  assumes "ga_ok ga" and "choice_ok choice" and "wf_array X" and "rows X \<noteq> []"
    and "length d = ncols X" and "\<forall>m \<in> set acc. length m = ncols X"
  shows "\<exists>ms rs'. emec_resample_loop ga choice n d X acc rs k = (Inr ms, rs')
           \<and> length ms = length acc + k \<and> (\<forall>m \<in> set ms. length m = ncols X)"
  using assms(6)
proof (induction k arbitrary: acc rs)
  case 0
  then show ?case by simp
next
  case (Suc k)
  obtain idx rs1 where ch: "choice rs (nrows X) (nrows X) = (idx, rs1)"
    by (cases "choice rs (nrows X) (nrows X)") auto
  have "0 < nrows X" using assms(4) by (simp add: nrows_def)
  then have "\<forall>i \<in> set idx. i < nrows X"
    using assms(2) ch unfolding choice_ok_def by (metis fst_conv)
  then obtain S where S: "take_rows X idx = Inr S" "wf_array S" "ncols S = ncols X"
    using take_rows_ok [OF assms(3)] by blast
  obtain m rs2 where b: "emec_build_for_class ga n d rs1 S = (Inr m, rs2)" "length m = ncols X"
    using emec_build_ok [OF assms(1) S(2), of d n rs1] assms(5) S(3) by auto
  have "\<forall>m' \<in> set (acc @ [m]). length m' = ncols X" using Suc.prems b(2) by simp
  then obtain ms rs' where
      "emec_resample_loop ga choice n d X (acc @ [m]) rs2 k = (Inr ms, rs')"
      "length ms = length (acc @ [m]) + k" "\<forall>m \<in> set ms. length m = ncols X"
    using Suc.IH [of "acc @ [m]" rs2] by blast
  then show ?case using ch S(1) b(1) by simp
qed

lemma emec_fit_loop_ok:
  assumes "ga_ok ga" and "choice_ok choice" and "wf_array X" and "nrows X = length y"
    and "length d = ncols X" and "set cs \<subseteq> set y"
    and "\<forall>c \<in> S. \<exists>ms. models c = Some ms \<and> length ms = k \<and> (\<forall>m \<in> set ms. length m = ncols X)"
  shows "\<exists>models'. emec_fit_loop ga choice n k d X y models rs cs = Inr models'
           \<and> (\<forall>c \<in> S \<union> set cs. \<exists>ms. models' c = Some ms \<and> length ms = k
                 \<and> (\<forall>m \<in> set ms. length m = ncols X))"
  using assms(6,7)
proof (induction cs arbitrary: models rs S)
  case Nil
  then show ?case by simp
next
  case (Cons c cs)
  let ?Xc = "select_rows X y c"
  have c: "c \<in> set y" using Cons.prems(1) by simp
  obtain ms rs' where r: "emec_resample_loop ga choice n d ?Xc [] rs k = (Inr ms, rs')"
      "length ms = k" "\<forall>m \<in> set ms. length m = ncols X"
    using emec_resample_loop_ok [OF assms(1,2) select_rows_wf [OF assms(3)]
        select_rows_nonempty [OF assms(4) c], of d "[]" n rs k] assms(5)
    by (auto simp: select_rows_ncols)
  have "\<forall>c' \<in> insert c S. \<exists>ms'. (models(c \<mapsto> ms)) c' = Some ms' \<and> length ms' = k
          \<and> (\<forall>m \<in> set ms'. length m = ncols X)"
    using Cons.prems(2) r(2,3) by simp
  moreover have "set cs \<subseteq> set y" using Cons.prems(1) by simp
  ultimately obtain models' where
      "emec_fit_loop ga choice n k d X y (models(c \<mapsto> ms)) rs' cs = Inr models'"
      "\<forall>c' \<in> insert c S \<union> set cs. \<exists>ms'. models' c' = Some ms' \<and> length ms' = k
          \<and> (\<forall>m \<in> set ms'. length m = ncols X)"
    using Cons.IH [of "insert c S" "models(c \<mapsto> ms)" rs'] by blast
  then show ?case using r(1) by simp
qed

lemma mec_fit_ok:
  assumes "ga_ok ga" and "wf_array X" and "rows X \<noteq> []" and "nrows X = length y"
  shows "\<exists>st. mec_fit ga stoean_f n rs X y = Inr st \<and> mec_fitted st (ncols X)
           \<and> mec_classes st = np_unique y"
proof -
  obtain d where d: "stoean_f X = Inr d" "length d = ncols X"
    using stoean_f_length [OF assms(3)] by blast
  obtain models where m: "mec_fit_loop ga n d X y Map.empty rs (np_unique y) = Inr models"
      "\<forall>c \<in> set (np_unique y). \<exists>m. models c = Some m \<and> length m = ncols X"
    using mec_fit_loop_ok [OF assms(1,2) d(2), of "{}" Map.empty n y rs "np_unique y"] by auto
  have "y \<noteq> []" using assms(3,4) by (auto simp: nrows_def)
  then have "np_unique y \<noteq> []" using np_unique_set [of y] by (metis set_empty)
  then show ?thesis
    using assms(4) d m np_unique_sorted [of y]
    by (simp add: mec_fit_def mec_fitted_def)
qed

lemma emec_fit_ok:
  assumes "ga_ok ga" and "choice_ok choice" and "wf_array X" and "rows X \<noteq> []"
    and "nrows X = length y"
  shows "\<exists>st. emec_fit ga choice rng_seed n k random_state entropy X y = Inr st
           \<and> emec_fitted st (ncols X) \<and> emec_classes st = np_unique y"
proof -
  obtain b a where ba: "nanmax X = Inr b" "nanmin X = Inr a"
      "length (map2 fl_sub b a) = ncols X"
    using nanmax_nanmin_ok [OF assms(4)] by blast
  let ?rs = "case random_state of None \<Rightarrow> entropy | Some seed \<Rightarrow> rng_seed seed"
  obtain models where m:
      "emec_fit_loop ga choice n k (map2 fl_sub b a) X y Map.empty ?rs (np_unique y) = Inr models"
      "\<forall>c \<in> set (np_unique y). \<exists>ms. models c = Some ms \<and> length ms = k
          \<and> (\<forall>m \<in> set ms. length m = ncols X)"
    using emec_fit_loop_ok [OF assms(1,2,3,5) ba(3), of "np_unique y" "{}" Map.empty k n ?rs]
    by (auto simp: np_unique_set)
  have "y \<noteq> []" using assms(4,5) by (auto simp: nrows_def)
  then have "np_unique y \<noteq> []" using np_unique_set [of y] by (metis set_empty)
  then show ?thesis
    using assms(5) ba m np_unique_sorted [of y]
    by (simp add: emec_fit_def emec_fitted_def)
qed

lemma ex_ga_ok: "ga_ok ex_ga"
  unfolding ga_ok_def
proof (intro allI impI)
  fix p :: ga_params and n rs :: nat
  assume "\<forall>c. length c = n_genes p \<longrightarrow> (\<exists>v. fitness_function p c = Inr v)"
  then obtain v where "fitness_function p (replicate (n_genes p) (Fin (real rs))) = Inr v"
    by (metis length_replicate)
  then show "\<exists>m rs'. ex_ga p n rs = (Inr m, rs') \<and> length m = n_genes p"
    by (simp add: ex_ga_def)
qed

lemma ex_choice_ok: "choice_ok ex_choice"
  by (simp add: choice_ok_def ex_choice_def)

lemma ex_sep_wf: "wf_array ex_sep"
  by (simp add: wf_array_def ex_sep_def)

lemma ex_sep_finite: "all_finite ex_sep"
  by (simp add: all_finite_def ex_sep_def)

lemma ex_sep_rows: "rows ex_sep \<noteq> []" "nrows ex_sep = length ex_sep_y"
  by (simp_all add: ex_sep_def ex_sep_y_def nrows_def)

lemma ex_sep_unique: "np_unique ex_sep_y = [0, 1]"
  by (simp add: np_unique_def ex_sep_y_def)

lemma ex_sep_d: "stoean_f ex_sep = Inr [Fin 10, Fin 11]"
  by (simp add: stoean_f_def nanmax_def nanmin_def column_def fl_fmax_def fl_fmin_def
      ex_sep_def upt_rec)

lemma ex_sep_fit:
  "mec_fit ex_ga stoean_f 10 0 ex_sep ex_sep_y
     = Inr \<lparr>mec_classes = [0, 1], mec_distance = [Fin 10, Fin 11],
            mec_models = [0 \<mapsto> [Fin 0, Fin 0], 1 \<mapsto> [Fin 1, Fin 1]]\<rparr>"
proof -
  have loop: "mec_fit_loop ex_ga 10 [Fin 10, Fin 11] ex_sep ex_sep_y Map.empty 0 (np_unique ex_sep_y)
      = Inr [0 \<mapsto> [Fin 0, Fin 0], 1 \<mapsto> [Fin 1, Fin 1]]"
    unfolding ex_sep_unique
    by (simp add: mec_build_for_class_def ex_ga_def select_rows_def ex_sep_def ex_sep_y_def
        numeral_2_eq_2 distance_fitness_def pairwise_def broadcast2_def bcast_row_def np_abs_def sum_axis1_def)
  show ?thesis
    by (simp add: mec_fit_def ex_sep_rows ex_sep_d loop) (simp add: ex_sep_unique)
qed


lemma ex_sep_emec_fit:
  "emec_fit ex_ga ex_choice nat 10 2 (Some 0) e ex_sep ex_sep_y
     = Inr \<lparr>emec_n_models = 2, emec_classes = [0, 1], emec_d = [Fin 10, Fin 11],
            emec_models = [0 \<mapsto> [[Fin 2, Fin 2], [Fin 5, Fin 5]],
                           1 \<mapsto> [[Fin 8, Fin 8], [Fin 11, Fin 11]]]\<rparr>"
proof -
  have mx: "nanmax ex_sep = Inr [Fin 10, Fin 11]" and mn: "nanmin ex_sep = Inr [Fin 0, Fin 0]"
    by (simp_all add: nanmax_def nanmin_def column_def fl_fmax_def fl_fmin_def ex_sep_def upt_rec)
  have loop: "emec_fit_loop ex_ga ex_choice 10 2 [Fin 10, Fin 11] ex_sep ex_sep_y Map.empty 0
        (np_unique ex_sep_y)
      = Inr [0 \<mapsto> [[Fin 2, Fin 2], [Fin 5, Fin 5]], 1 \<mapsto> [[Fin 8, Fin 8], [Fin 11, Fin 11]]]"
    unfolding ex_sep_unique
    by (simp add: emec_build_for_class_def ex_ga_def ex_choice_def take_rows_def nrows_def
        select_rows_def ex_sep_def ex_sep_y_def numeral_2_eq_2 emec_distance_fitness_def
        broadcast2_def bcast_row_def np_abs_def sum_all_def)
  show ?thesis
    by (simp add: emec_fit_def ex_sep_rows mx mn loop) (simp add: ex_sep_unique)
qed


lemma replicate_labels:
  assumes "k < length cs"
  shows "length (replicate n (cs ! k)) = n \<and> set (replicate n (cs ! k)) \<subseteq> set cs"
  using assms by (cases n) auto

text \<open>
  Claim C9. For a training set of finite values (none missing) with at least one row,
  labelled by \<open>y\<close>, and an engine and a random source that keep their contracts, \<^verbatim>\<open>fit\<close>
  succeeds for both classifiers with the class list \<^verbatim>\<open>np.unique(y)\<close>, and \<^verbatim>\<open>predict\<close> on
  the training set returns one label per row, each of them a label of \<open>y\<close>.
\<close>

theorem fit_predict_labels:
  assumes "ga_ok ga" and "choice_ok choice"
    and "wf_array X" and "all_finite X" and "rows X \<noteq> []" and "nrows X = length y"
  shows "(\<exists>st labels. mec_fit ga stoean_f n rs X y = Inr st \<and> mec_classes st = np_unique y
            \<and> mec_predict st X = Inr labels \<and> length labels = nrows X \<and> set labels \<subseteq> set y)
       \<and> (\<exists>st labels. emec_fit ga choice rng_seed n k random_state entropy X y = Inr st
            \<and> emec_classes st = np_unique y
            \<and> emec_predict st X = Inr labels \<and> length labels = nrows X \<and> set labels \<subseteq> set y)"
proof
  obtain st where st: "mec_fit ga stoean_f n rs X y = Inr st" "mec_fitted st (ncols X)"
      "mec_classes st = np_unique y"
    using mec_fit_ok [OF assms(1,3,5,6)] by blast
  let ?k = "argmin (map (mec_total st X) (mec_classes st))"
  have ne: "map (mec_total st X) (mec_classes st) \<noteq> []"
    using st(2) by (simp add: mec_fitted_def)
  have "?k < length (mec_classes st)" using argmin_bound [OF ne] by simp
  then have "length (replicate (nrows X) (mec_classes st ! ?k)) = nrows X
      \<and> set (replicate (nrows X) (mec_classes st ! ?k)) \<subseteq> set y"
    using replicate_labels [of ?k "mec_classes st" "nrows X"] st(3) by (simp add: np_unique_set)
  then show "\<exists>st labels. mec_fit ga stoean_f n rs X y = Inr st \<and> mec_classes st = np_unique y
            \<and> mec_predict st X = Inr labels \<and> length labels = nrows X \<and> set labels \<subseteq> set y"
    using st(1,3) mec_predict_closed [OF st(2) assms(3)] by blast
next
  obtain st where st: "emec_fit ga choice rng_seed n k random_state entropy X y = Inr st"
      "emec_fitted st (ncols X)" "emec_classes st = np_unique y"
    using emec_fit_ok [OF assms(1,2,3,5,6)] by blast
  let ?labels = "map (\<lambda>r. emec_classes st ! emec_best st r) (rows X)"
  have ne: "emec_classes st \<noteq> []" using st(2) by (simp add: emec_fitted_def)
  have "\<And>r. emec_best st r < length (emec_classes st)"
    using argmin_map_first_min [OF ne] by (simp add: emec_best_def)
  then have "set ?labels \<subseteq> set (emec_classes st)" by auto
  then have "length ?labels = nrows X \<and> set ?labels \<subseteq> set y"
    using st(3) by (simp add: np_unique_set nrows_def)
  then show "\<exists>st labels. emec_fit ga choice rng_seed n k random_state entropy X y = Inr st
            \<and> emec_classes st = np_unique y
            \<and> emec_predict st X = Inr labels \<and> length labels = nrows X \<and> set labels \<subseteq> set y"
    using st(1,3) emec_predict_closed [OF st(2) assms(3)] by blast
qed

theorem fit_predict_labels_witness:
  "ga_ok ex_ga \<and> choice_ok ex_choice \<and> wf_array ex_sep \<and> all_finite ex_sep
   \<and> rows ex_sep \<noteq> [] \<and> nrows ex_sep = length ex_sep_y
   \<and> (\<exists>st labels. mec_fit ex_ga stoean_f 10 0 ex_sep ex_sep_y = Inr st
        \<and> mec_classes st = np_unique ex_sep_y \<and> mec_predict st ex_sep = Inr labels
        \<and> length labels = nrows ex_sep \<and> set labels \<subseteq> set ex_sep_y)
   \<and> (\<exists>st labels. emec_fit ex_ga ex_choice nat 10 2 (Some 0) 0 ex_sep ex_sep_y = Inr st
        \<and> emec_classes st = np_unique ex_sep_y \<and> emec_predict st ex_sep = Inr labels
        \<and> length labels = nrows ex_sep \<and> set labels \<subseteq> set ex_sep_y)"
proof -
  note t = fit_predict_labels [OF ex_ga_ok ex_choice_ok ex_sep_wf ex_sep_finite ex_sep_rows,
      of 10 0 nat 2 "Some 0" 0]
  show ?thesis
    by (intro conjI ex_ga_ok ex_choice_ok ex_sep_wf ex_sep_finite ex_sep_rows
        conjunct1 [OF t] conjunct2 [OF t])
qed

section \<open>The scale vector\<close>

lemma is_nanmax_step:
  assumes "is_nanmax pre acc" and "pre \<noteq> []"
  shows "is_nanmax (pre @ [x]) (fl_fmax acc x)"
proof (cases "\<forall>z \<in> set pre. z = NaN")
  case True
  then have "acc = NaN" using assms(1) by (simp add: is_nanmax_def)
  then show ?thesis using True by (auto simp: is_nanmax_def fl_fmax_def fl_le_refl)
next
  case False
  then have a: "acc \<noteq> NaN" "acc \<in> set pre" "\<forall>z \<in> set pre. z \<noteq> NaN \<longrightarrow> fl_le z acc"
    using assms(1) by (simp_all add: is_nanmax_def)
  show ?thesis
  proof (cases "x = NaN")
    case True
    then show ?thesis using a False by (auto simp: is_nanmax_def fl_fmax_def)
  next
    case xn: False
    show ?thesis
    proof (cases "fl_le acc x")
      case True
      then have "\<forall>z \<in> set pre. z \<noteq> NaN \<longrightarrow> fl_le z x"
        using a(3) by (blast intro: fl_le_trans)
      then show ?thesis using a xn True by (auto simp: is_nanmax_def fl_fmax_def fl_le_refl)
    next
      case le: False
      then have "fl_le x acc" using fl_le_total [OF a(1) xn] by blast
      then show ?thesis using a xn le by (auto simp: is_nanmax_def fl_fmax_def)
    qed
  qed
qed

lemma is_nanmin_step:
  assumes "is_nanmin pre acc" and "pre \<noteq> []"
  shows "is_nanmin (pre @ [x]) (fl_fmin acc x)"
proof (cases "\<forall>z \<in> set pre. z = NaN")
  case True
  then have "acc = NaN" using assms(1) by (simp add: is_nanmin_def)
  then show ?thesis using True by (auto simp: is_nanmin_def fl_fmin_def fl_le_refl)
next
  case False
  then have a: "acc \<noteq> NaN" "acc \<in> set pre" "\<forall>z \<in> set pre. z \<noteq> NaN \<longrightarrow> fl_le acc z"
    using assms(1) by (simp_all add: is_nanmin_def)
  show ?thesis
  proof (cases "x = NaN")
    case True
    then show ?thesis using a False by (auto simp: is_nanmin_def fl_fmin_def)
  next
    case xn: False
    show ?thesis
    proof (cases "fl_le acc x")
      case True
      then show ?thesis using a xn by (auto simp: is_nanmin_def fl_fmin_def)
    next
      case le: False
      then have xa: "fl_le x acc" using fl_le_total [OF a(1) xn] by blast
      then have "\<forall>z \<in> set pre. z \<noteq> NaN \<longrightarrow> fl_le x z"
        using a(3) by (blast intro: fl_le_trans)
      then show ?thesis using a xn le by (auto simp: is_nanmin_def fl_fmin_def fl_le_refl)
    qed
  qed
qed

lemma foldl_fmax_nanmax:
  assumes "is_nanmax pre acc" and "pre \<noteq> []"
  shows "is_nanmax (pre @ xs) (foldl fl_fmax acc xs)"
  using assms
proof (induction xs arbitrary: pre acc)
  case Nil
  then show ?case by simp
next
  case (Cons x xs)
  have "is_nanmax ((pre @ [x]) @ xs) (foldl fl_fmax (fl_fmax acc x) xs)"
    by (rule Cons.IH) (use Cons.prems in \<open>simp_all add: is_nanmax_step\<close>)
  then show ?case by simp
qed

lemma foldl_fmin_nanmin:
  assumes "is_nanmin pre acc" and "pre \<noteq> []"
  shows "is_nanmin (pre @ xs) (foldl fl_fmin acc xs)"
  using assms
proof (induction xs arbitrary: pre acc)
  case Nil
  then show ?case by simp
next
  case (Cons x xs)
  have "is_nanmin ((pre @ [x]) @ xs) (foldl fl_fmin (fl_fmin acc x) xs)"
    by (rule Cons.IH) (use Cons.prems in \<open>simp_all add: is_nanmin_step\<close>)
  then show ?case by simp
qed

lemma col_nanmax:
  assumes "xs \<noteq> []"
  shows "is_nanmax xs (foldl fl_fmax (hd xs) (tl xs))"
proof -
  have "is_nanmax [hd xs] (hd xs)" by (simp add: is_nanmax_def fl_le_refl)
  then have "is_nanmax ([hd xs] @ tl xs) (foldl fl_fmax (hd xs) (tl xs))"
    by (rule foldl_fmax_nanmax) simp
  then show ?thesis using assms by simp
qed

lemma col_nanmin:
  assumes "xs \<noteq> []"
  shows "is_nanmin xs (foldl fl_fmin (hd xs) (tl xs))"
proof -
  have "is_nanmin [hd xs] (hd xs)" by (simp add: is_nanmin_def fl_le_refl)
  then have "is_nanmin ([hd xs] @ tl xs) (foldl fl_fmin (hd xs) (tl xs))"
    by (rule foldl_fmin_nanmin) simp
  then show ?thesis using assms by simp
qed

lemma mec_build_params: "mec_build_for_class ga n d rs S = ga (mec_ga_params d S) n rs"
  by (simp add: mec_build_for_class_def mec_ga_params_def)

lemma emec_build_params: "emec_build_for_class ga n d rs S = ga (emec_ga_params d S) n rs"
  by (simp add: emec_build_for_class_def emec_ga_params_def)

lemma mec_fit_loop_cong:
  assumes "\<forall>S m r. ga (mec_ga_params d S) m r = ga' (mec_ga_params d S) m r"
  shows "mec_fit_loop ga n d X y models rs cs = mec_fit_loop ga' n d X y models rs cs"
proof (induction cs arbitrary: models rs)
  case Nil
  then show ?case by simp
next
  case (Cons c cs)
  have b: "mec_build_for_class ga n d rs (select_rows X y c)
      = mec_build_for_class ga' n d rs (select_rows X y c)"
    using assms by (simp add: mec_build_params)
  show ?case by (simp only: mec_fit_loop.simps b Cons.IH)
qed

lemma emec_resample_loop_cong:
  assumes "\<forall>S m r. ga (emec_ga_params d S) m r = ga' (emec_ga_params d S) m r"
  shows "emec_resample_loop ga choice n d Xc acc rs k
       = emec_resample_loop ga' choice n d Xc acc rs k"
proof (induction k arbitrary: acc rs)
  case 0
  then show ?case by simp
next
  case (Suc k)
  have b: "\<And>r S. emec_build_for_class ga n d r S = emec_build_for_class ga' n d r S"
    using assms by (simp add: emec_build_params)
  show ?case by (simp only: emec_resample_loop.simps b Suc.IH)
qed

lemma emec_fit_loop_cong:
  assumes "\<forall>S m r. ga (emec_ga_params d S) m r = ga' (emec_ga_params d S) m r"
  shows "emec_fit_loop ga choice n k d X y models rs cs
       = emec_fit_loop ga' choice n k d X y models rs cs"
proof (induction cs arbitrary: models rs)
  case Nil
  then show ?case by simp
next
  case (Cons c cs)
  show ?case
    by (simp only: emec_fit_loop.simps emec_resample_loop_cong [OF assms] Cons.IH)
qed


lemma mec_fit_distance:
  assumes "stoean_f X = Inr d" and "mec_fit ga stoean_f n rs X y = Inr st"
  shows "mec_distance st = d"
  using assms by (auto simp: mec_fit_def split: if_splits sum.splits)

lemma emec_fit_d:
  assumes "stoean_f X = Inr d"
    and "emec_fit ga choice rng_seed n k random_state entropy X y = Inr st"
  shows "emec_d st = d"
  using assms by (auto simp: emec_fit_def stoean_f_def Let_def split: if_splits sum.splits)

lemma mec_fit_cong:
  assumes "stoean_f X = Inr d"
    and "\<forall>S m r. ga (mec_ga_params d S) m r = ga' (mec_ga_params d S) m r"
  shows "mec_fit ga stoean_f n rs X y = mec_fit ga' stoean_f n rs X y"
  by (simp add: mec_fit_def assms(1) mec_fit_loop_cong [OF assms(2)])

lemma emec_fit_cong:
  assumes "stoean_f X = Inr d"
    and "\<forall>S m r. ga (emec_ga_params d S) m r = ga' (emec_ga_params d S) m r"
  shows "emec_fit ga choice rng_seed n k random_state entropy X y
       = emec_fit ga' choice rng_seed n k random_state entropy X y"
proof -
  obtain b a where ba: "nanmax X = Inr b" "nanmin X = Inr a" "d = map2 fl_sub b a"
    using assms(1) by (auto simp: stoean_f_def split: sum.splits)
  have "\<forall>S m r. ga (emec_ga_params (map2 fl_sub b a) S) m r
      = ga' (emec_ga_params (map2 fl_sub b a) S) m r"
    using assms(2) unfolding ba(3) .
  then have l: "\<And>rs cs. emec_fit_loop ga choice n k (map2 fl_sub b a) X y Map.empty rs cs
      = emec_fit_loop ga' choice n k (map2 fl_sub b a) X y Map.empty rs cs"
    by (rule emec_fit_loop_cong)
  show ?thesis
    by (simp add: emec_fit_def ba(1,2) l)
qed

text \<open>
  Claim C6. For a training set \<open>X\<close> with at least one row there is one scale vector \<open>d\<close>:
  per feature, the maximum minus the minimum of the column of \<open>X\<close>, both ignoring missing
  values. It is what the default factory \<^verbatim>\<open>stoean_f\<close> builds from \<open>X\<close>, what \<^verbatim>\<open>fit\<close> of
  either classifier stores, and the only scale vector under which the engine is ever
  run within that \<^verbatim>\<open>fit\<close>, for every class and every resample: replacing the engine by one
  that agrees with it on the configurations built from \<open>d\<close> does not change the result.
\<close>

theorem scale_vector_shared:
  assumes "wf_array X" and "rows X \<noteq> []"
  shows "\<exists>d. length d = ncols X
          \<and> (\<forall>j<ncols X. \<exists>b a. is_nanmax (column X j) b \<and> is_nanmin (column X j) a
                \<and> d ! j = fl_sub b a)
          \<and> stoean_f X = Inr d
          \<and> (\<forall>ga n rs y st. mec_fit ga stoean_f n rs X y = Inr st \<longrightarrow> mec_distance st = d)
          \<and> (\<forall>ga choice rng_seed n k random_state entropy y st.
                emec_fit ga choice rng_seed n k random_state entropy X y = Inr st
                \<longrightarrow> emec_d st = d)
          \<and> (\<forall>ga ga' n rs y.
                (\<forall>S m r. ga (mec_ga_params d S) m r = ga' (mec_ga_params d S) m r)
                \<longrightarrow> mec_fit ga stoean_f n rs X y = mec_fit ga' stoean_f n rs X y)
          \<and> (\<forall>ga ga' choice rng_seed n k random_state entropy y.
                (\<forall>S m r. ga (emec_ga_params d S) m r = ga' (emec_ga_params d S) m r)
                \<longrightarrow> emec_fit ga choice rng_seed n k random_state entropy X y
                    = emec_fit ga' choice rng_seed n k random_state entropy X y)"
proof -
  define d where "d = map (\<lambda>j. fl_sub (foldl fl_fmax (hd (column X j)) (tl (column X j)))
                                   (foldl fl_fmin (hd (column X j)) (tl (column X j))))
                         [0..<ncols X]"
  have d: "stoean_f X = Inr d"
    unfolding d_def by (rule stoean_f_value [OF assms(2)])
  have len: "length d = ncols X" by (simp add: d_def)
  have cols: "\<forall>j<ncols X. \<exists>b a. is_nanmax (column X j) b \<and> is_nanmin (column X j) a
                \<and> d ! j = fl_sub b a"
  proof (intro allI impI)
    fix j assume j: "j < ncols X"
    have ne: "column X j \<noteq> []" by (rule column_nonempty [OF assms(2)])
    have "is_nanmax (column X j) (foldl fl_fmax (hd (column X j)) (tl (column X j)))"
      by (rule col_nanmax [OF ne])
    moreover have "is_nanmin (column X j) (foldl fl_fmin (hd (column X j)) (tl (column X j)))"
      by (rule col_nanmin [OF ne])
    moreover have "d ! j = fl_sub (foldl fl_fmax (hd (column X j)) (tl (column X j)))
                                 (foldl fl_fmin (hd (column X j)) (tl (column X j)))"
      using j by (simp add: d_def)
    ultimately show "\<exists>b a. is_nanmax (column X j) b \<and> is_nanmin (column X j) a
                \<and> d ! j = fl_sub b a"
      by blast
  qed
  have m1: "\<forall>ga n rs y st. mec_fit ga stoean_f n rs X y = Inr st \<longrightarrow> mec_distance st = d"
    using mec_fit_distance [OF d] by blast
  have e1: "\<forall>ga choice rng_seed n k random_state entropy y st.
                emec_fit ga choice rng_seed n k random_state entropy X y = Inr st
                \<longrightarrow> emec_d st = d"
    using emec_fit_d [OF d] by blast
  have m2: "\<forall>ga ga' n rs y.
                (\<forall>S m r. ga (mec_ga_params d S) m r = ga' (mec_ga_params d S) m r)
                \<longrightarrow> mec_fit ga stoean_f n rs X y = mec_fit ga' stoean_f n rs X y"
    by (intro allI impI) (rule mec_fit_cong [OF d])
  have e2: "\<forall>ga ga' choice rng_seed n k random_state entropy y.
                (\<forall>S m r. ga (emec_ga_params d S) m r = ga' (emec_ga_params d S) m r)
                \<longrightarrow> emec_fit ga choice rng_seed n k random_state entropy X y
                    = emec_fit ga' choice rng_seed n k random_state entropy X y"
    by (intro allI impI) (rule emec_fit_cong [OF d])
  show ?thesis
    by (intro exI [of _ d] conjI len cols d m1 e1 m2 e2)
qed


lemma ex_missing_d: "stoean_f ex_missing = Inr [Fin 2, Fin 0]"
  by (simp add: stoean_f_def nanmax_def nanmin_def column_def fl_fmax_def fl_fmin_def
      ex_missing_def upt_rec)

lemma ex_missing_wf: "wf_array ex_missing" "rows ex_missing \<noteq> []"
  by (simp_all add: wf_array_def ex_missing_def)

theorem scale_vector_shared_witness:
  "wf_array ex_missing \<and> rows ex_missing \<noteq> []
   \<and> (\<exists>d. stoean_f ex_missing = Inr d \<and> d = [Fin 2, Fin 0] \<and> length d = ncols ex_missing)
   \<and> wf_array ex_sep \<and> rows ex_sep \<noteq> []
   \<and> (\<exists>st. mec_fit ex_ga stoean_f 10 0 ex_sep ex_sep_y = Inr st
          \<and> mec_distance st = [Fin 10, Fin 11])
   \<and> (\<exists>st. emec_fit ex_ga ex_choice nat 10 2 (Some 0) 0 ex_sep ex_sep_y = Inr st
          \<and> emec_d st = [Fin 10, Fin 11])"
proof -
  obtain d1 where d1: "length d1 = ncols ex_missing" "stoean_f ex_missing = Inr d1"
    using scale_vector_shared [OF ex_missing_wf] by (elim exE conjE) (rule that; assumption)
  have a: "\<exists>d. stoean_f ex_missing = Inr d \<and> d = [Fin 2, Fin 0] \<and> length d = ncols ex_missing"
    using d1 ex_missing_d by simp
  obtain d :: "fl list" where d: "stoean_f ex_sep = Inr d"
      "\<forall>(ga :: nat ga_engine) n rs (y :: nat list) st.
          mec_fit ga stoean_f n rs ex_sep y = Inr st \<longrightarrow> mec_distance st = d"
      "\<forall>(ga :: nat ga_engine) choice rng_seed n k random_state entropy (y :: nat list) st.
          emec_fit ga choice rng_seed n k random_state entropy ex_sep y = Inr st
          \<longrightarrow> emec_d st = d"
    using scale_vector_shared [OF ex_sep_wf ex_sep_rows(1)]
    by (elim exE conjE) (rule that; assumption)
  have dv: "d = [Fin 10, Fin 11]" using d(1) ex_sep_d by simp
  obtain st where st: "mec_fit ex_ga stoean_f 10 0 ex_sep ex_sep_y = Inr st"
    using ex_sep_fit by blast
  then have "mec_distance st = [Fin 10, Fin 11]" using d(2) dv by blast
  then have b: "\<exists>st. mec_fit ex_ga stoean_f 10 0 ex_sep ex_sep_y = Inr st
          \<and> mec_distance st = [Fin 10, Fin 11]"
    using st by blast
  obtain est where est: "emec_fit ex_ga ex_choice nat 10 2 (Some 0) 0 ex_sep ex_sep_y = Inr est"
    using ex_sep_emec_fit by blast
  then have "emec_d est = [Fin 10, Fin 11]" using d(3) dv by blast
  then have c: "\<exists>st. emec_fit ex_ga ex_choice nat 10 2 (Some 0) 0 ex_sep ex_sep_y = Inr st
          \<and> emec_d st = [Fin 10, Fin 11]"
    using est by blast
  show ?thesis
    by (intro conjI ex_missing_wf ex_sep_wf ex_sep_rows(1) a b c)
qed

section \<open>Scores that are NaN\<close>

lemma ex_train_rows: "rows ex_train \<noteq> []" "nrows ex_train = length ex_train_y"
  by (simp_all add: ex_train_def ex_train_y_def nrows_def)

lemma ex_train_unique: "np_unique ex_train_y = [0, 1]"
  by (simp add: np_unique_def ex_train_y_def)

lemma ex_train_d: "stoean_f ex_train = Inr [Fin 1, Fin 0]"
  by (simp add: stoean_f_def nanmax_def nanmin_def column_def fl_fmax_def fl_fmin_def
      ex_train_def upt_rec)

lemma ex_mec_nan_fit: "mec_fit ex_ga stoean_f 10 4 ex_train ex_train_y = Inr ex_mec_nan"
proof -
  have loop: "mec_fit_loop ex_ga 10 [Fin 1, Fin 0] ex_train ex_train_y Map.empty 4
        (np_unique ex_train_y)
      = Inr [0 \<mapsto> [Fin 4, Fin 4], 1 \<mapsto> [Fin 5, Fin 5]]"
    unfolding ex_train_unique
    by (simp add: mec_build_for_class_def ex_ga_def select_rows_def ex_train_def ex_train_y_def
        numeral_2_eq_2 distance_fitness_def pairwise_def broadcast2_def bcast_row_def np_abs_def
        sum_axis1_def)
  show ?thesis
    by (simp add: mec_fit_def ex_train_rows ex_train_d loop ex_mec_nan_def)
       (simp add: ex_train_unique)
qed

lemma ex_mec_nan_fitted: "mec_fitted ex_mec_nan (ncols ex_train)"
  by (simp add: mec_fitted_def ex_mec_nan_def ex_train_def)

lemma ex_mec_nan_totals:
  "mec_total ex_mec_nan ex_train 0 = PInf" "mec_total ex_mec_nan ex_train 1 = NaN"
  by (simp_all add: mec_total_def ex_mec_nan_def ex_train_def row_dist_def fl_sum_def)

text \<open>
  Claim C10, counterexample. Fitted on the training set \<open>[[1, 5], [2, 5]]\<close> with the labels
  0 and 1, whose second feature is constant, the classifier has the scale vector
  \<open>[1, 0]\<close>; with the models \<open>[4, 4]\<close> and \<open>[5, 5]\<close> the totals over the training set are
  \<open>+inf\<close> for class 0 and NaN for class 1. \<^verbatim>\<open>predict\<close> answers class 1 for every row, and
  the total of class 1 is not the least: it is not below that of class 0.
\<close>

theorem mec_predict_nan_class:
  "mec_fit ex_ga stoean_f 10 4 ex_train ex_train_y = Inr ex_mec_nan
   \<and> mec_predict ex_mec_nan ex_train = Inr [1, 1]
   \<and> mec_total ex_mec_nan ex_train 0 = PInf
   \<and> mec_total ex_mec_nan ex_train 1 = NaN
   \<and> \<not> fl_le (mec_total ex_mec_nan ex_train 1) (mec_total ex_mec_nan ex_train 0)"
proof -
  have "map (mec_total ex_mec_nan ex_train) (mec_classes ex_mec_nan) = [PInf, NaN]"
    using ex_mec_nan_totals by (simp add: ex_mec_nan_def)
  then have "mec_predict ex_mec_nan ex_train = Inr [1, 1]"
    using mec_predict_closed [OF ex_mec_nan_fitted ex_train_wf]
    by (simp add: nrows_def ex_train_def ex_mec_nan_def numeral_2_eq_2)
  then show ?thesis
    using ex_mec_nan_fit ex_mec_nan_totals by simp
qed

lemma ex_emec_nan_fit:
  "emec_fit ex_ga ex_choice nat 10 2 (Some 0) e ex_train ex_train_y = Inr ex_emec_nan"
proof -
  have mx: "nanmax ex_train = Inr [Fin 2, Fin 5]" and mn: "nanmin ex_train = Inr [Fin 1, Fin 5]"
    by (simp_all add: nanmax_def nanmin_def column_def fl_fmax_def fl_fmin_def ex_train_def upt_rec)
  have loop: "emec_fit_loop ex_ga ex_choice 10 2 [Fin 1, Fin 0] ex_train ex_train_y Map.empty 0
        (np_unique ex_train_y)
      = Inr [0 \<mapsto> [[Fin 1, Fin 1], [Fin 3, Fin 3]], 1 \<mapsto> [[Fin 5, Fin 5], [Fin 7, Fin 7]]]"
    unfolding ex_train_unique
    by (simp add: emec_build_for_class_def ex_ga_def ex_choice_def take_rows_def nrows_def
        select_rows_def ex_train_def ex_train_y_def numeral_2_eq_2 emec_distance_fitness_def
        broadcast2_def bcast_row_def np_abs_def sum_all_def)
  show ?thesis
    by (simp add: emec_fit_def ex_train_rows mx mn loop ex_emec_nan_def)
       (simp add: ex_train_unique)
qed

lemma ex_emec_nan_fitted: "emec_fitted ex_emec_nan (ncols ex_train)"
  by (simp add: emec_fitted_def ex_emec_nan_def ex_train_def)

lemma ex_emec_nan_scores:
  "emec_score ex_emec_nan [Fin 1, Fin 5] 0 = PInf" "emec_score ex_emec_nan [Fin 1, Fin 5] 1 = NaN"
  "emec_score ex_emec_nan [Fin 2, Fin 5] 0 = PInf" "emec_score ex_emec_nan [Fin 2, Fin 5] 1 = NaN"
  by (simp_all add: emec_score_def ex_emec_nan_def row_dist_def fl_sum_def)

text \<open>
  Claim C2, counterexample. Fitted with seed 0 and two models per class on the training
  set \<open>[[1, 5], [2, 5]]\<close>, whose second feature is constant, the ensemble has the scale
  vector \<open>[1, 0]\<close>, and \<open>[5, 5]\<close> is one of the models of class 1; the scores of each training row
  are \<open>+inf\<close> for class 0 and NaN for class 1. \<^verbatim>\<open>predict\<close> answers class 1, whose score is
  not the least: it is not below that of class 0.
\<close>

theorem emec_predict_nan_class:
  "emec_fit ex_ga ex_choice nat 10 2 (Some 0) 0 ex_train ex_train_y = Inr ex_emec_nan
   \<and> emec_predict ex_emec_nan ex_train = Inr [1, 1]
   \<and> emec_score ex_emec_nan [Fin 1, Fin 5] 0 = PInf
   \<and> emec_score ex_emec_nan [Fin 1, Fin 5] 1 = NaN
   \<and> \<not> fl_le (emec_score ex_emec_nan [Fin 1, Fin 5] 1) (emec_score ex_emec_nan [Fin 1, Fin 5] 0)"
proof -
  have "map (\<lambda>r. emec_classes ex_emec_nan ! emec_best ex_emec_nan r) (rows ex_train) = [1, 1]"
    using ex_emec_nan_scores by (simp add: emec_best_def ex_train_def) (simp add: ex_emec_nan_def)
  then have "emec_predict ex_emec_nan ex_train = Inr [1, 1]"
    using emec_predict_closed [OF ex_emec_nan_fitted ex_train_wf] by simp
  then show ?thesis
    using ex_emec_nan_fit ex_emec_nan_scores by simp
qed

section \<open>What a feature of range zero leads to\<close>

lemma zero_range_scale:
  assumes "wf_array X" and "rows X \<noteq> []" and "all_finite X"
    and "f < ncols X" and "\<forall>r \<in> set (rows X). r ! f = a"
  shows "\<exists>d. stoean_f X = Inr d \<and> length d = ncols X \<and> (\<forall>x \<in> set d. is_fin x)
           \<and> d ! f = Fin 0"
proof -
  define d where "d = map (\<lambda>j. fl_sub (foldl fl_fmax (hd (column X j)) (tl (column X j)))
                                   (foldl fl_fmin (hd (column X j)) (tl (column X j))))
                         [0..<ncols X]"
  have d: "stoean_f X = Inr d"
    unfolding d_def by (rule stoean_f_value [OF assms(2)])
  have len: "length d = ncols X" by (simp add: d_def)
  have fin: "\<forall>x \<in> set d. is_fin x"
  proof
    fix x assume "x \<in> set d"
    then obtain j where j: "j < ncols X"
        "x = fl_sub (foldl fl_fmax (hd (column X j)) (tl (column X j)))
                    (foldl fl_fmin (hd (column X j)) (tl (column X j)))"
      by (auto simp: d_def)
    have "is_fin (foldl fl_fmax (hd (column X j)) (tl (column X j)))"
      using column_finite [OF assms(1,3) j(1)] col_max_mem [OF assms(2)] by blast
    moreover have "is_fin (foldl fl_fmin (hd (column X j)) (tl (column X j)))"
      using column_finite [OF assms(1,3) j(1)] col_min_mem [OF assms(2)] by blast
    ultimately show "is_fin x" using j(2) by (simp add: is_fin_sub)
  qed
  have const: "set (column X f) = {a}"
  proof
    show "set (column X f) \<subseteq> {a}" using assms(5) by (auto simp: column_def)
    obtain r where "r \<in> set (rows X)" using assms(2) by (cases "rows X") auto
    then have "a \<in> set (column X f)" using assms(5) by (force simp: column_def)
    then show "{a} \<subseteq> set (column X f)" by simp
  qed
  have "foldl fl_fmax (hd (column X f)) (tl (column X f)) = a"
       "foldl fl_fmin (hd (column X f)) (tl (column X f)) = a"
    using col_max_mem [OF assms(2), of f] col_min_mem [OF assms(2), of f] const by auto
  moreover have "is_fin a"
    using column_finite [OF assms(1,3,4), of a] const by simp
  ultimately have zero: "d ! f = Fin 0"
    using assms(4) by (simp add: d_def fl_sub_self)
  show ?thesis by (intro exI [of _ d] conjI d len fin zero)
qed

lemma fl_sum_all_nonfinite:
  assumes "xs \<noteq> []" and "\<forall>x \<in> set xs. x = PInf \<or> x = NaN"
  shows "fl_sum xs = PInf \<or> fl_sum xs = NaN"
proof (rule fl_sum_nonfinite)
  show "NInf \<notin> set xs" using assms(2) by auto
  obtain x where "x \<in> set xs" using assms(1) by (cases xs) auto
  then show "\<exists>x \<in> set xs. x = PInf \<or> x = NaN" using assms(2) by blast
qed

lemma zero_scale_rows:
  assumes "wf_array Q" and "ncols Q = length d" and "all_finite Q"
    and "length c = length d" and "\<forall>x \<in> set c. is_fin x" and "\<forall>x \<in> set d. is_fin x"
    and "f < length d" and "d ! f = Fin 0"
  shows "\<forall>r \<in> set (rows Q). row_dist d r c = PInf \<or> row_dist d r c = NaN"
proof
  fix r assume r: "r \<in> set (rows Q)"
  have "length r = length d" using r assms(1,2) by (simp add: wf_array_def)
  moreover have "\<forall>x \<in> set r. is_fin x" using r assms(3) by (simp add: all_finite_def)
  ultimately show "row_dist d r c = PInf \<or> row_dist d r c = NaN"
    using assms(4-8) by (intro row_dist_zero_scale [where f = f]) simp_all
qed

lemma zero_scale_total:
  assumes "wf_array Q" and "ncols Q = length d" and "all_finite Q" and "rows Q \<noteq> []"
    and "length c = length d" and "\<forall>x \<in> set c. is_fin x" and "\<forall>x \<in> set d. is_fin x"
    and "f < length d" and "d ! f = Fin 0"
  shows "fl_sum (map (\<lambda>r. row_dist d r c) (rows Q)) = PInf
       \<or> fl_sum (map (\<lambda>r. row_dist d r c) (rows Q)) = NaN"
proof (rule fl_sum_all_nonfinite)
  show "map (\<lambda>r. row_dist d r c) (rows Q) \<noteq> []" using assms(4) by simp
  show "\<forall>x \<in> set (map (\<lambda>r. row_dist d r c) (rows Q)). x = PInf \<or> x = NaN"
    using zero_scale_rows [OF assms(1,2,3,5,6,7,8,9)] by auto
qed

lemma zero_scale_fitness:
  assumes "wf_array Q" and "ncols Q = length d" and "all_finite Q" and "rows Q \<noteq> []"
    and "length c = length d" and "\<forall>x \<in> set c. is_fin x" and "\<forall>x \<in> set d. is_fin x"
    and "f < length d" and "d ! f = Fin 0"
  shows "\<exists>s. distance_fitness d Q c = Inr s \<and> emec_distance_fitness d Q c = Inr s
           \<and> (s = PInf \<or> s = NaN)"
proof -
  have "distance_fitness d Q c = Inr (fl_sum (map (\<lambda>r. row_dist d r c) (rows Q)))"
    by (rule distance_fitness_total) (use assms(1,2,5) in simp_all)
  then show ?thesis
    using zero_scale_total [OF assms] by (simp add: emec_distance_fitness_exact)
qed

lemma zero_scale_score:
  assumes "length r = length d" and "\<forall>x \<in> set r. is_fin x" and "\<forall>x \<in> set d. is_fin x"
    and "f < length d" and "d ! f = Fin 0" and "ms \<noteq> []"
    and "\<forall>m \<in> set ms. length m = length d \<and> (\<forall>x \<in> set m. is_fin x)"
  shows "fl_sum (map (row_dist d r) ms) = PInf \<or> fl_sum (map (row_dist d r) ms) = NaN"
proof (rule fl_sum_all_nonfinite)
  show "map (row_dist d r) ms \<noteq> []" using assms(6) by simp
  show "\<forall>x \<in> set (map (row_dist d r) ms). x = PInf \<or> x = NaN"
  proof
    fix x assume "x \<in> set (map (row_dist d r) ms)"
    then obtain m where m: "m \<in> set ms" "x = row_dist d r m" by auto
    have "row_dist d r m = PInf \<or> row_dist d r m = NaN"
      using assms(1-5,7) m(1) by (intro row_dist_zero_scale [where f = f]) simp_all
    then show "x = PInf \<or> x = NaN" using m(2) by simp
  qed
qed

text \<open>
  Claim C7, as amended. For a training set of finite values with a feature \<open>f\<close> that is
  constant over all rows, the scale vector \<open>d\<close> exists and is 0 at \<open>f\<close>, and nothing is
  raised. For every query set and reference point of finite values and matching width,
  the distance computation of both classifiers returns one entry per row, each \<open>+inf\<close> or
  NaN; on a query set with a row, both fitness functions have the value \<open>+inf\<close> or NaN;
  and for fitted classifiers with this scale vector and models of finite values, the
  scores that \<^verbatim>\<open>predict\<close> compares are all \<open>+inf\<close> or NaN, and \<^verbatim>\<open>predict\<close> still returns
  one label per row.
\<close>

theorem zero_range_no_error:
  assumes "wf_array X" and "rows X \<noteq> []" and "all_finite X"
    and "f < ncols X" and "\<forall>r \<in> set (rows X). r ! f = a"
    and "wf_array Q" and "ncols Q = ncols X" and "all_finite Q"
    and "length c = ncols X" and "\<forall>x \<in> set c. is_fin x"
  shows "\<exists>d v. stoean_f X = Inr d \<and> d ! f = Fin 0
           \<and> pairwise d Q c = Inr v \<and> emec_row_distance d Q c = Inr v
           \<and> length v = nrows Q \<and> (\<forall>x \<in> set v. x = PInf \<or> x = NaN)
           \<and> (rows Q \<noteq> [] \<longrightarrow>
                (\<exists>s. distance_fitness d Q c = Inr s \<and> emec_distance_fitness d Q c = Inr s
                   \<and> (s = PInf \<or> s = NaN)))
           \<and> (\<forall>st :: ('l::linorder) mec.
                mec_fitted st (ncols X) \<and> mec_distance st = d
                \<and> (\<forall>k \<in> set (mec_classes st). \<forall>x \<in> set (the (mec_models st k)). is_fin x)
                \<longrightarrow> (\<exists>labels. mec_predict st Q = Inr labels \<and> length labels = nrows Q)
                  \<and> (rows Q \<noteq> [] \<longrightarrow>
                       (\<forall>k \<in> set (mec_classes st).
                          mec_total st Q k = PInf \<or> mec_total st Q k = NaN)))
           \<and> (\<forall>st :: ('l::linorder) emec.
                emec_fitted st (ncols X) \<and> emec_d st = d \<and> 0 < emec_n_models st
                \<and> (\<forall>k \<in> set (emec_classes st). \<forall>m \<in> set (the (emec_models st k)).
                      \<forall>x \<in> set m. is_fin x)
                \<longrightarrow> (\<exists>labels. emec_predict st Q = Inr labels \<and> length labels = nrows Q)
                  \<and> (\<forall>r \<in> set (rows Q). \<forall>k \<in> set (emec_classes st).
                        emec_score st r k = PInf \<or> emec_score st r k = NaN))"
proof -
  obtain d where d: "stoean_f X = Inr d" "length d = ncols X" "\<forall>x \<in> set d. is_fin x"
      "d ! f = Fin 0"
    using zero_range_scale [OF assms(1-5)] by blast
  have fd: "f < length d" using assms(4) d(2) by simp
  have Qd: "ncols Q = length d" and cd: "length c = length d" using assms(7,9) d(2) by simp_all
  define v where "v = map (\<lambda>r. row_dist d r c) (rows Q)"
  have pw: "pairwise d Q c = Inr v"
    unfolding v_def by (rule pairwise_rows) (use assms(6) Qd cd in simp_all)
  have pe: "emec_row_distance d Q c = Inr v"
    using pw by (simp add: emec_row_distance_pairwise)
  have lv: "length v = nrows Q" by (simp add: v_def nrows_def)
  have vs: "\<forall>x \<in> set v. x = PInf \<or> x = NaN"
    using zero_scale_rows [OF assms(6) Qd assms(8) cd assms(10) d(3) fd d(4)]
    by (auto simp: v_def)
  have fit: "rows Q \<noteq> [] \<longrightarrow>
        (\<exists>s. distance_fitness d Q c = Inr s \<and> emec_distance_fitness d Q c = Inr s
           \<and> (s = PInf \<or> s = NaN))"
    using zero_scale_fitness [OF assms(6) Qd assms(8) _ cd assms(10) d(3) fd d(4)] by blast
  have mec: "\<forall>st :: 'l mec.
        mec_fitted st (ncols X) \<and> mec_distance st = d
        \<and> (\<forall>k \<in> set (mec_classes st). \<forall>x \<in> set (the (mec_models st k)). is_fin x)
        \<longrightarrow> (\<exists>labels. mec_predict st Q = Inr labels \<and> length labels = nrows Q)
          \<and> (rows Q \<noteq> [] \<longrightarrow>
               (\<forall>k \<in> set (mec_classes st).
                  mec_total st Q k = PInf \<or> mec_total st Q k = NaN))"
  proof (intro allI impI conjI ballI; (elim conjE)?)
    fix st :: "'l mec"
    assume st: "mec_fitted st (ncols X)" "mec_distance st = d"
      "\<forall>k \<in> set (mec_classes st). \<forall>x \<in> set (the (mec_models st k)). is_fin x"
    have "mec_fitted st (ncols Q)" using st(1) assms(7) by simp
    then have "mec_predict st Q
        = Inr (replicate (nrows Q) (mec_classes st ! argmin (map (mec_total st Q) (mec_classes st))))"
      by (rule mec_predict_closed [OF _ assms(6)])
    then show "\<exists>labels. mec_predict st Q = Inr labels \<and> length labels = nrows Q" by simp
    fix k assume ne: "rows Q \<noteq> []" and k: "k \<in> set (mec_classes st)"
    obtain m where m: "mec_models st k = Some m" "length m = ncols X"
      using st(1) k by (auto simp: mec_fitted_def)
    have "length m = length d" "\<forall>x \<in> set m. is_fin x"
      using m d(2) st(3) k by auto
    then have "fl_sum (map (\<lambda>r. row_dist d r m) (rows Q)) = PInf
        \<or> fl_sum (map (\<lambda>r. row_dist d r m) (rows Q)) = NaN"
      by (intro zero_scale_total [OF assms(6) Qd assms(8) ne _ _ d(3) fd d(4)]) simp_all
    then show "mec_total st Q k = PInf \<or> mec_total st Q k = NaN"
      by (simp add: mec_total_def st(2) m(1))
  qed
  have emec: "\<forall>st :: 'l emec.
        emec_fitted st (ncols X) \<and> emec_d st = d \<and> 0 < emec_n_models st
        \<and> (\<forall>k \<in> set (emec_classes st). \<forall>m \<in> set (the (emec_models st k)).
              \<forall>x \<in> set m. is_fin x)
        \<longrightarrow> (\<exists>labels. emec_predict st Q = Inr labels \<and> length labels = nrows Q)
          \<and> (\<forall>r \<in> set (rows Q). \<forall>k \<in> set (emec_classes st).
                emec_score st r k = PInf \<or> emec_score st r k = NaN)"
  proof (intro allI impI conjI ballI; (elim conjE)?)
    fix st :: "'l emec"
    assume st: "emec_fitted st (ncols X)" "emec_d st = d" "0 < emec_n_models st"
      "\<forall>k \<in> set (emec_classes st). \<forall>m \<in> set (the (emec_models st k)). \<forall>x \<in> set m. is_fin x"
    have "emec_fitted st (ncols Q)" using st(1) assms(7) by simp
    then have "emec_predict st Q
        = Inr (map (\<lambda>r. emec_classes st ! emec_best st r) (rows Q))"
      by (rule emec_predict_closed [OF _ assms(6)])
    then show "\<exists>labels. emec_predict st Q = Inr labels \<and> length labels = nrows Q"
      by (simp add: nrows_def)
    fix r k assume r: "r \<in> set (rows Q)" and k: "k \<in> set (emec_classes st)"
    obtain ms where ms: "emec_models st k = Some ms" "length ms = emec_n_models st"
        "\<forall>m \<in> set ms. length m = ncols X"
      using st(1) k by (auto simp: emec_fitted_def)
    have r1: "length r = length d" using r assms(6) Qd by (simp add: wf_array_def)
    have r2: "\<forall>x \<in> set r. is_fin x" using r assms(8) by (simp add: all_finite_def)
    have m1: "ms \<noteq> []" using ms(2) st(3) by auto
    have m2: "\<forall>m \<in> set ms. length m = length d \<and> (\<forall>x \<in> set m. is_fin x)"
      using ms(1,3) d(2) st(4) k by auto
    have "fl_sum (map (row_dist d r) ms) = PInf \<or> fl_sum (map (row_dist d r) ms) = NaN"
      by (rule zero_scale_score [OF r1 r2 d(3) fd d(4) m1 m2])
    then show "emec_score st r k = PInf \<or> emec_score st r k = NaN"
      by (simp add: emec_score_def st(2) ms(1))
  qed
  show ?thesis
    by (intro exI [of _ d] exI [of _ v] conjI d(1) d(4) pw pe lv vs fit mec emec)
qed


theorem zero_range_no_error_witness:
  "wf_array ex_train \<and> rows ex_train \<noteq> [] \<and> all_finite ex_train \<and> (1::nat) < ncols ex_train
   \<and> length [Fin 1, Fin 4] = ncols ex_train
   \<and> (\<exists>d v. stoean_f ex_train = Inr d \<and> d ! 1 = Fin 0
           \<and> pairwise d ex_train [Fin 1, Fin 4] = Inr v
           \<and> emec_row_distance d ex_train [Fin 1, Fin 4] = Inr v
           \<and> length v = nrows ex_train \<and> (\<forall>x \<in> set v. x = PInf \<or> x = NaN)
           \<and> (rows ex_train \<noteq> [] \<longrightarrow>
                (\<exists>s. distance_fitness d ex_train [Fin 1, Fin 4] = Inr s
                   \<and> emec_distance_fitness d ex_train [Fin 1, Fin 4] = Inr s
                   \<and> (s = PInf \<or> s = NaN)))
           \<and> (\<forall>st :: nat mec.
                mec_fitted st (ncols ex_train) \<and> mec_distance st = d
                \<and> (\<forall>k \<in> set (mec_classes st). \<forall>x \<in> set (the (mec_models st k)). is_fin x)
                \<longrightarrow> (\<exists>labels. mec_predict st ex_train = Inr labels
                       \<and> length labels = nrows ex_train)
                  \<and> (rows ex_train \<noteq> [] \<longrightarrow>
                       (\<forall>k \<in> set (mec_classes st).
                          mec_total st ex_train k = PInf \<or> mec_total st ex_train k = NaN)))
           \<and> (\<forall>st :: nat emec.
                emec_fitted st (ncols ex_train) \<and> emec_d st = d \<and> 0 < emec_n_models st
                \<and> (\<forall>k \<in> set (emec_classes st). \<forall>m \<in> set (the (emec_models st k)).
                      \<forall>x \<in> set m. is_fin x)
                \<longrightarrow> (\<exists>labels. emec_predict st ex_train = Inr labels
                       \<and> length labels = nrows ex_train)
                  \<and> (\<forall>r \<in> set (rows ex_train). \<forall>k \<in> set (emec_classes st).
                        emec_score st r k = PInf \<or> emec_score st r k = NaN)))"
proof -
  have a: "rows ex_train \<noteq> []" "(1::nat) < ncols ex_train"
      "\<forall>r \<in> set (rows ex_train). r ! 1 = Fin 5"
      "length [Fin 1, Fin 4] = ncols ex_train" "\<forall>x \<in> set [Fin 1, Fin 4]. is_fin x"
    by (simp_all add: ex_train_def)
  show ?thesis
    by (intro conjI ex_train_wf ex_train_finite a(1,2,4))
       (rule zero_range_no_error [OF ex_train_wf a(1) ex_train_finite a(2,3) ex_train_wf refl
          ex_train_finite a(4,5)])
qed

section \<open>Two runs with the same seed\<close>

lemma emec_resample_loop_sim:
  assumes E: "\<forall>p n a b. R a b \<longrightarrow> fst (E p n a) = fst (E p n b) \<and> R (snd (E p n a)) (snd (E p n b))"
    and C: "\<forall>a b n k. R a b \<longrightarrow> fst (C a n k) = fst (C b n k) \<and> R (snd (C a n k)) (snd (C b n k))"
    and "R a b"
  shows "fst (emec_resample_loop E C n d Xc acc a k) = fst (emec_resample_loop E C n d Xc acc b k)
       \<and> R (snd (emec_resample_loop E C n d Xc acc a k))
            (snd (emec_resample_loop E C n d Xc acc b k))"
  using assms(3)
proof (induction k arbitrary: acc a b)
  case 0
  then show ?case by simp
next
  case (Suc k)
  obtain idx a1 where ca: "C a (nrows Xc) (nrows Xc) = (idx, a1)"
    by (cases "C a (nrows Xc) (nrows Xc)") auto
  obtain idx' b1 where cb: "C b (nrows Xc) (nrows Xc) = (idx', b1)"
    by (cases "C b (nrows Xc) (nrows Xc)") auto
  have i: "idx' = idx" "R a1 b1"
    using C Suc.prems ca cb by (metis fst_conv snd_conv)+
  show ?case
  proof (cases "take_rows Xc idx")
    case (Inl e)
    then show ?thesis using ca cb i by simp
  next
    case S: (Inr S)
    obtain res a2 where ea: "emec_build_for_class E n d a1 S = (res, a2)"
      by (cases "emec_build_for_class E n d a1 S") auto
    obtain res' b2 where eb: "emec_build_for_class E n d b1 S = (res', b2)"
      by (cases "emec_build_for_class E n d b1 S") auto
    have j: "res' = res" "R a2 b2"
      using E i(2) ea eb unfolding emec_build_for_class_def by (metis fst_conv snd_conv)+
    show ?thesis
    proof (cases res)
      case (Inl e)
      then show ?thesis using ca cb i S ea eb j by simp
    next
      case (Inr m)
      have "fst (emec_resample_loop E C n d Xc (acc @ [m]) a2 k)
            = fst (emec_resample_loop E C n d Xc (acc @ [m]) b2 k)
          \<and> R (snd (emec_resample_loop E C n d Xc (acc @ [m]) a2 k))
               (snd (emec_resample_loop E C n d Xc (acc @ [m]) b2 k))"
        by (rule Suc.IH [OF j(2)])
      then show ?thesis using ca cb i S ea eb j Inr by simp
    qed
  qed
qed

lemma emec_fit_loop_sim:
  assumes E: "\<forall>p n a b. R a b \<longrightarrow> fst (E p n a) = fst (E p n b) \<and> R (snd (E p n a)) (snd (E p n b))"
    and C: "\<forall>a b n k. R a b \<longrightarrow> fst (C a n k) = fst (C b n k) \<and> R (snd (C a n k)) (snd (C b n k))"
    and "R a b"
  shows "emec_fit_loop E C n k d X y models a cs = emec_fit_loop E C n k d X y models b cs"
  using assms(3)
proof (induction cs arbitrary: models a b)
  case Nil
  then show ?case by simp
next
  case (Cons c cs)
  let ?la = "emec_resample_loop E C n d (select_rows X y c) [] a k"
  let ?lb = "emec_resample_loop E C n d (select_rows X y c) [] b k"
  have s: "fst ?la = fst ?lb \<and> R (snd ?la) (snd ?lb)"
    by (rule emec_resample_loop_sim [OF E C Cons.prems])
  obtain res a' where la: "?la = (res, a')" by (cases ?la) auto
  obtain res' b' where lb: "?lb = (res', b')" by (cases ?lb) auto
  have r: "res' = res" "R a' b'" using s la lb by simp_all
  show ?case
  proof (cases res)
    case (Inl e)
    then show ?thesis using la lb r by simp
  next
    case (Inr ms)
    have "emec_fit_loop E C n k d X y (models(c \<mapsto> ms)) a' cs
        = emec_fit_loop E C n k d X y (models(c \<mapsto> ms)) b' cs"
      by (rule Cons.IH [OF r(2)])
    then show ?thesis using la lb r Inr by simp
  qed
qed

lemma with_ambient_ga_sim:
  assumes "draws_from_given_source ga"
  shows "\<forall>p n a b. fst a = fst b \<longrightarrow>
           fst (with_ambient_ga ga p n a) = fst (with_ambient_ga ga p n b)
         \<and> fst (snd (with_ambient_ga ga p n a)) = fst (snd (with_ambient_ga ga p n b))"
proof (intro allI impI)
  fix p n and a b :: "'a \<times> 'b"
  assume ab: "fst a = fst b"
  obtain rs g1 where a: "a = (rs, g1)" by (cases a)
  obtain g2 where b: "b = (rs, g2)" using ab a by (cases b) auto
  have "fst (ga p n rs g1) = fst (ga p n rs g2)
      \<and> fst (snd (ga p n rs g1)) = fst (snd (ga p n rs g2))"
    using assms unfolding draws_from_given_source_def by blast
  then show "fst (with_ambient_ga ga p n a) = fst (with_ambient_ga ga p n b)
         \<and> fst (snd (with_ambient_ga ga p n a)) = fst (snd (with_ambient_ga ga p n b))"
    by (simp add: with_ambient_ga_def a b split: prod.splits)
qed

lemma with_ambient_choice_sim:
  "\<forall>a b n k. fst a = fst b \<longrightarrow>
     fst (with_ambient_choice choice a n k) = fst (with_ambient_choice choice b n k)
   \<and> fst (snd (with_ambient_choice choice a n k)) = fst (snd (with_ambient_choice choice b n k))"
  by (auto simp: with_ambient_choice_def split: prod.splits)

text \<open>
  Claim C5. Two independent runs may differ in the state that the operating system
  supplies for an unseeded source and in the ambient state of the process. With an
  integer seed, \<^verbatim>\<open>fit\<close> builds its source from the seed alone and hands this one source to
  every resampling and every run of the engine, in the same order; so if the engine
  draws from the source it is handed only, two runs of \<^verbatim>\<open>fit\<close> and \<^verbatim>\<open>predict\<close> on the same
  training set and query set give the same result (the same labels, or the same error).
\<close>

theorem emec_seeded_deterministic:
  assumes "draws_from_given_source ga"
  shows "emec_run ga choice rng_seed n k (Some seed) entropy1 g1 X y Q
       = emec_run ga choice rng_seed n k (Some seed) entropy2 g2 X y Q"
proof -
  let ?E = "with_ambient_ga ga"
  let ?C = "with_ambient_choice choice"
  have "\<And>d. emec_fit_loop ?E ?C n k d X y Map.empty (rng_seed seed, g1) (np_unique y)
      = emec_fit_loop ?E ?C n k d X y Map.empty (rng_seed seed, g2) (np_unique y)"
    by (rule emec_fit_loop_sim [where R = "\<lambda>a b. fst a = fst b",
          OF with_ambient_ga_sim [OF assms] with_ambient_choice_sim]) simp
  then have "emec_fit ?E ?C (\<lambda>seed. (rng_seed seed, g1)) n k (Some seed) (entropy1, g1) X y
      = emec_fit ?E ?C (\<lambda>seed. (rng_seed seed, g2)) n k (Some seed) (entropy2, g2) X y"
    by (simp add: emec_fit_def cong: sum.case_cong)
  then show ?thesis by (simp add: emec_run_def emec_fit_predict_def)
qed

lemma ex_ga_given_source: "draws_from_given_source ex_ga_given"
  by (simp add: draws_from_given_source_def ex_ga_given_def split: prod.splits)

lemma ex_sep_predict_near:
  "emec_predict \<lparr>emec_n_models = 2, emec_classes = [0, 1], emec_d = [Fin 10, Fin 11],
            emec_models = [0 \<mapsto> [[Fin 2, Fin 2], [Fin 5, Fin 5]],
                           1 \<mapsto> [[Fin 8, Fin 8], [Fin 11, Fin 11]]]\<rparr> ex_sep
      = Inr [0::nat, 0, 1, 1]"
  by (simp add: emec_predict_def enumerate_from0_def np_zeros_def nrows_def take_argmin_def
      emec_row_distance_def broadcast2_def bcast_row_def np_abs_def sum_axis1_def
      set_col_def fl_sum_def ex_sep_def numeral_2_eq_2)

lemma ex_sep_run_given:
  "emec_run ex_ga_given ex_choice nat 10 2 (Some 0) 0 5 ex_sep ex_sep_y ex_sep
     = Inr [0, 0, 1, 1]"
proof -
  have mx: "nanmax ex_sep = Inr [Fin 10, Fin 11]" and mn: "nanmin ex_sep = Inr [Fin 0, Fin 0]"
    by (simp_all add: nanmax_def nanmin_def column_def fl_fmax_def fl_fmin_def ex_sep_def upt_rec)
  have loop: "emec_fit_loop (with_ambient_ga ex_ga_given) (with_ambient_choice ex_choice) 10 2
        [Fin 10, Fin 11] ex_sep ex_sep_y Map.empty (0, 5) (np_unique ex_sep_y)
      = Inr [0 \<mapsto> [[Fin 2, Fin 2], [Fin 5, Fin 5]], 1 \<mapsto> [[Fin 8, Fin 8], [Fin 11, Fin 11]]]"
    unfolding ex_sep_unique
    by (simp add: emec_build_for_class_def with_ambient_ga_def with_ambient_choice_def
        ex_ga_given_def ex_ga_def ex_choice_def take_rows_def nrows_def
        select_rows_def ex_sep_def ex_sep_y_def numeral_2_eq_2 emec_distance_fitness_def
        broadcast2_def bcast_row_def np_abs_def sum_all_def)
  have fit: "emec_fit (with_ambient_ga ex_ga_given) (with_ambient_choice ex_choice)
        (\<lambda>seed. (nat seed, 5)) 10 2 (Some 0) (0, 5) ex_sep ex_sep_y
      = Inr \<lparr>emec_n_models = 2, emec_classes = [0, 1], emec_d = [Fin 10, Fin 11],
            emec_models = [0 \<mapsto> [[Fin 2, Fin 2], [Fin 5, Fin 5]],
                           1 \<mapsto> [[Fin 8, Fin 8], [Fin 11, Fin 11]]]\<rparr>"
    by (simp add: emec_fit_def ex_sep_rows mx mn loop) (simp add: ex_sep_unique)
  show ?thesis
    by (simp only: emec_run_def emec_fit_predict_def fit sum.case ex_sep_predict_near)
qed

theorem emec_seeded_deterministic_witness:
  "draws_from_given_source ex_ga_given
   \<and> emec_run ex_ga_given ex_choice nat 10 2 (Some 0) 100 77 ex_sep ex_sep_y ex_sep
       = emec_run ex_ga_given ex_choice nat 10 2 (Some 0) 0 5 ex_sep ex_sep_y ex_sep
   \<and> emec_run ex_ga_given ex_choice nat 10 2 (Some 0) 100 77 ex_sep ex_sep_y ex_sep
       = Inr [0, 0, 1, 1]"
proof -
  note t = emec_seeded_deterministic [OF ex_ga_given_source,
      of ex_choice nat 10 2 0 100 77 ex_sep ex_sep_y ex_sep 0 5]
  show ?thesis
    by (intro conjI ex_ga_given_source t trans [OF t ex_sep_run_given])
qed

text \<open>The condition on the engine is needed: with an engine that draws from the ambient
  state, the same seed gives different labels in two processes.\<close>

lemma ex_ga_ambient_not_given: "\<not> draws_from_given_source ex_ga_ambient"
proof
  assume "draws_from_given_source ex_ga_ambient"
  then have "fst (ex_ga_ambient \<lparr>fitness_function = (\<lambda>c. Inr (Fin 0)), elitism = 0,
        n_chromosomes = 0, n_genes = 1, p_mutation = 0\<rparr> 0 0 0)
      = fst (ex_ga_ambient \<lparr>fitness_function = (\<lambda>c. Inr (Fin 0)), elitism = 0,
        n_chromosomes = 0, n_genes = 1, p_mutation = 0\<rparr> 0 0 2)"
    unfolding draws_from_given_source_def by blast
  then show False by (simp add: ex_ga_ambient_def ex_ga_def)
qed

lemma emec_seeded_ambient_differs:
  "emec_run ex_ga_ambient ex_choice nat 10 2 (Some 0) 0 0 ex_sep ex_sep_y ex_sep
     = Inr [0, 0, 1, 1]
   \<and> emec_run ex_ga_ambient ex_choice nat 10 2 (Some 0) 0 20 ex_sep ex_sep_y ex_sep
     = Inr [0, 0, 0, 0]"
proof -
  have mx: "nanmax ex_sep = Inr [Fin 10, Fin 11]" and mn: "nanmin ex_sep = Inr [Fin 0, Fin 0]"
    by (simp_all add: nanmax_def nanmin_def column_def fl_fmax_def fl_fmin_def ex_sep_def upt_rec)
  have l0: "emec_fit_loop (with_ambient_ga ex_ga_ambient) (with_ambient_choice ex_choice) 10 2
        [Fin 10, Fin 11] ex_sep ex_sep_y Map.empty (0, 0) (np_unique ex_sep_y)
      = Inr [0 \<mapsto> [[Fin 0, Fin 0], [Fin 1, Fin 1]], 1 \<mapsto> [[Fin 2, Fin 2], [Fin 3, Fin 3]]]"
    unfolding ex_sep_unique
    by (simp add: emec_build_for_class_def with_ambient_ga_def with_ambient_choice_def
        ex_ga_ambient_def ex_ga_def ex_choice_def take_rows_def nrows_def
        select_rows_def ex_sep_def ex_sep_y_def numeral_2_eq_2 emec_distance_fitness_def
        broadcast2_def bcast_row_def np_abs_def sum_all_def)
  have l1: "emec_fit_loop (with_ambient_ga ex_ga_ambient) (with_ambient_choice ex_choice) 10 2
        [Fin 10, Fin 11] ex_sep ex_sep_y Map.empty (0, 20) (np_unique ex_sep_y)
      = Inr [0 \<mapsto> [[Fin 20, Fin 20], [Fin 21, Fin 21]],
             1 \<mapsto> [[Fin 22, Fin 22], [Fin 23, Fin 23]]]"
    unfolding ex_sep_unique
    by (simp add: emec_build_for_class_def with_ambient_ga_def with_ambient_choice_def
        ex_ga_ambient_def ex_ga_def ex_choice_def take_rows_def nrows_def
        select_rows_def ex_sep_def ex_sep_y_def numeral_2_eq_2 emec_distance_fitness_def
        broadcast2_def bcast_row_def np_abs_def sum_all_def)
  have f0: "emec_fit (with_ambient_ga ex_ga_ambient) (with_ambient_choice ex_choice)
        (\<lambda>seed. (nat seed, 0)) 10 2 (Some 0) (0, 0) ex_sep ex_sep_y
      = Inr \<lparr>emec_n_models = 2, emec_classes = [0, 1], emec_d = [Fin 10, Fin 11],
            emec_models = [0 \<mapsto> [[Fin 0, Fin 0], [Fin 1, Fin 1]],
                           1 \<mapsto> [[Fin 2, Fin 2], [Fin 3, Fin 3]]]\<rparr>"
    by (simp add: emec_fit_def ex_sep_rows mx mn l0) (simp add: ex_sep_unique)
  have f1: "emec_fit (with_ambient_ga ex_ga_ambient) (with_ambient_choice ex_choice)
        (\<lambda>seed. (nat seed, 20)) 10 2 (Some 0) (0, 20) ex_sep ex_sep_y
      = Inr \<lparr>emec_n_models = 2, emec_classes = [0, 1], emec_d = [Fin 10, Fin 11],
            emec_models = [0 \<mapsto> [[Fin 20, Fin 20], [Fin 21, Fin 21]],
                           1 \<mapsto> [[Fin 22, Fin 22], [Fin 23, Fin 23]]]\<rparr>"
    by (simp add: emec_fit_def ex_sep_rows mx mn l1) (simp add: ex_sep_unique)
  have p0: "emec_predict \<lparr>emec_n_models = 2, emec_classes = [0, 1], emec_d = [Fin 10, Fin 11],
            emec_models = [0 \<mapsto> [[Fin 0, Fin 0], [Fin 1, Fin 1]],
                           1 \<mapsto> [[Fin 2, Fin 2], [Fin 3, Fin 3]]]\<rparr> ex_sep
      = Inr [0::nat, 0, 1, 1]"
    by (simp add: emec_predict_def enumerate_from0_def np_zeros_def nrows_def take_argmin_def
        emec_row_distance_def broadcast2_def bcast_row_def np_abs_def sum_axis1_def
        set_col_def fl_sum_def ex_sep_def numeral_2_eq_2)
  have p1: "emec_predict \<lparr>emec_n_models = 2, emec_classes = [0, 1], emec_d = [Fin 10, Fin 11],
            emec_models = [0 \<mapsto> [[Fin 20, Fin 20], [Fin 21, Fin 21]],
                           1 \<mapsto> [[Fin 22, Fin 22], [Fin 23, Fin 23]]]\<rparr> ex_sep
      = Inr [0::nat, 0, 0, 0]"
    by (simp add: emec_predict_def enumerate_from0_def np_zeros_def nrows_def take_argmin_def
        emec_row_distance_def broadcast2_def bcast_row_def np_abs_def sum_axis1_def
        set_col_def fl_sum_def ex_sep_def numeral_2_eq_2)
  show ?thesis
    by (simp only: emec_run_def emec_fit_predict_def f0 f1 sum.case p0 p1 simp_thms)
qed
text \<open>Without a seed the source is built from the state that the operating system
  supplies, and the result depends on it: with the example engine, two such states give
  two different sets of models.\<close>

lemma emec_unseeded_entropy:
  "emec_fit ex_ga ex_choice nat 10 2 None 0 ex_sep ex_sep_y
     \<noteq> emec_fit ex_ga ex_choice nat 10 2 None 7 ex_sep ex_sep_y"
proof -
  have mx: "nanmax ex_sep = Inr [Fin 10, Fin 11]" and mn: "nanmin ex_sep = Inr [Fin 0, Fin 0]"
    by (simp_all add: nanmax_def nanmin_def column_def fl_fmax_def fl_fmin_def ex_sep_def upt_rec)
  have l0: "emec_fit_loop ex_ga ex_choice 10 2 [Fin 10, Fin 11] ex_sep ex_sep_y Map.empty 0
        (np_unique ex_sep_y)
      = Inr [0 \<mapsto> [[Fin 2, Fin 2], [Fin 5, Fin 5]], 1 \<mapsto> [[Fin 8, Fin 8], [Fin 11, Fin 11]]]"
    unfolding ex_sep_unique
    by (simp add: emec_build_for_class_def ex_ga_def ex_choice_def take_rows_def nrows_def
        select_rows_def ex_sep_def ex_sep_y_def numeral_2_eq_2 emec_distance_fitness_def
        broadcast2_def bcast_row_def np_abs_def sum_all_def)
  have l1: "emec_fit_loop ex_ga ex_choice 10 2 [Fin 10, Fin 11] ex_sep ex_sep_y Map.empty 7
        (np_unique ex_sep_y)
      = Inr [0 \<mapsto> [[Fin 9, Fin 9], [Fin 12, Fin 12]], 1 \<mapsto> [[Fin 15, Fin 15], [Fin 18, Fin 18]]]"
    unfolding ex_sep_unique
    by (simp add: emec_build_for_class_def ex_ga_def ex_choice_def take_rows_def nrows_def
        select_rows_def ex_sep_def ex_sep_y_def numeral_2_eq_2 emec_distance_fitness_def
        broadcast2_def bcast_row_def np_abs_def sum_all_def)
  have "[0 \<mapsto> [[Fin 2, Fin 2], [Fin 5, Fin 5]], 1 \<mapsto> [[Fin 8, Fin 8], [Fin 11, Fin 11]]] (0::nat)
      \<noteq> [0 \<mapsto> [[Fin 9, Fin 9], [Fin 12, Fin 12]], 1 \<mapsto> [[Fin 15, Fin 15], [Fin 18, Fin 18]]] (0::nat)"
    by simp
  then have "[0 \<mapsto> [[Fin 2, Fin 2], [Fin 5, Fin 5]], 1 \<mapsto> [[Fin 8, Fin 8], [Fin 11, Fin 11]]]
      \<noteq> [(0::nat) \<mapsto> [[Fin 9, Fin 9], [Fin 12, Fin 12]], 1 \<mapsto> [[Fin 15, Fin 15], [Fin 18, Fin 18]]]"
    by metis
  then show ?thesis
    by (simp add: emec_fit_def ex_sep_rows mx mn l0 l1)
qed


section \<open>The distance in the two classifiers\<close>

lemma fl_round_id: "fl_round (\<lambda>x. x) v = v"
  by (cases v) simp_all

lemma rounded_id: "rounded (\<lambda>x. x) f = f"
  by (intro ext) (simp add: rounded_def fl_round_id)

lemma foldl_fl_add_shift: "foldl fl_add a xs = fl_add a (foldl fl_add (Fin 0) xs)"
proof (induction xs arbitrary: a)
  case Nil
  show ?case by (cases a) simp_all
next
  case (Cons x xs)
  have "foldl fl_add a (x # xs) = fl_add (fl_add a x) (foldl fl_add (Fin 0) xs)"
    using Cons.IH [of "fl_add a x"] by simp
  also have "\<dots> = fl_add a (fl_add x (foldl fl_add (Fin 0) xs))"
    by (simp add: fl_add_assoc)
  also have "\<dots> = fl_add a (foldl fl_add (Fin 0) (x # xs))"
    using Cons.IH [of "fl_add (Fin 0) x"] by (simp add: fl_add_zero_left)
  finally show ?case .
qed

text \<open>Without rounding the two orders of summation are the exact sum, and the rounded
  expressions are the ones of the sections above.\<close>

lemma np_add_reduce_exact: "np_add_reduce (\<lambda>x. x) xs = fl_sum xs"
proof (cases xs)
  case Nil
  then show ?thesis by (simp add: np_add_reduce_def fl_sum_def)
next
  case (Cons x rest)
  have "fl_sum (x # rest) = foldl fl_add x rest"
    by (simp add: fl_sum_def fl_add_zero_left)
  also have "\<dots> = fl_add x (foldl fl_add (Fin 0) rest)"
    by (rule foldl_fl_add_shift)
  finally show ?thesis
    by (simp add: np_add_reduce_def rounded_id Cons)
qed

lemma seq_add_reduce_exact: "seq_add_reduce (\<lambda>x. x) xs = fl_sum xs"
  by (simp add: seq_add_reduce_def rounded_id fl_sum_def)

lemma pairwise_r_exact: "pairwise_r (\<lambda>x. x) fl_sum d X c = pairwise d X c"
  by (simp add: pairwise_r_def pairwise_def rounded_id sum_axis1_def cong: sum.case_cong)

lemma distance_fitness_r_exact:
  "distance_fitness_r (\<lambda>x. x) fl_sum d X c = distance_fitness d X c"
  by (simp add: distance_fitness_r_def distance_fitness_def pairwise_r_exact)

lemma emec_distance_fitness_r_exact:
  "emec_distance_fitness_r (\<lambda>x. x) fl_sum d X c = emec_distance_fitness d X c"
  by (simp add: emec_distance_fitness_r_def emec_distance_fitness_def rounded_id sum_all_def
      cong: sum.case_cong)

lemma emec_row_distance_r_exact:
  "emec_row_distance_r (\<lambda>x. x) fl_sum d X m = emec_row_distance d X m"
  by (simp add: emec_row_distance_r_def emec_row_distance_def rounded_id sum_axis1_def
      cong: sum.case_cong)

lemma floor_log2:
  assumes "2 ^ n \<le> x" and "x < 2 ^ Suc n"
  shows "\<lfloor>log 2 x\<rfloor> = int n"
proof -
  have x: "0 < x" using assms(1) by (smt (verit) zero_less_power)
  have "real n \<le> log 2 x"
    using assms(1) x by (simp add: le_log_iff powr_realpow)
  moreover have "log 2 x < real n + 1"
  proof -
    have "(2::real) powr (real (Suc n)) = 2 ^ Suc n" by (rule powr_realpow) simp
    then have "x < 2 powr (real (Suc n))" using assms(2) by (simp only:)
    then have "log 2 x < real (Suc n)" using x by (simp add: log_less_iff)
    then show ?thesis by simp
  qed
  ultimately show ?thesis by (simp add: floor_eq_iff)
qed

lemma rnd64_big:
  assumes "2 ^ (52 + m) \<le> x" and "x < 2 ^ Suc (52 + m)"
  shows "rnd64 x = of_int (round_half_even (x / 2 ^ m)) * 2 ^ m"
proof -
  have x: "0 < x" using assms(1) by (smt (verit) zero_less_power)
  have "\<lfloor>log 2 \<bar>x\<bar>\<rfloor> = int (52 + m)" using floor_log2 [OF assms] x by simp
  then show ?thesis using x by (simp add: rnd64_def)
qed

lemma rnd64_small:
  assumes "2 ^ (52 - m) \<le> x" and "x < 2 ^ Suc (52 - m)" and "0 < m" and "m \<le> 52"
  shows "rnd64 x = of_int (round_half_even (x * 2 ^ m)) / 2 ^ m"
proof -
  have x: "0 < x" using assms(1) by (smt (verit) zero_less_power)
  have "\<lfloor>log 2 \<bar>x\<bar>\<rfloor> = int (52 - m)" using floor_log2 [OF assms(1,2)] x by simp
  moreover have "int (52 - m) - 52 = - int m" using assms(4) by simp
  ultimately show ?thesis using x assms(3) by (simp add: rnd64_def)
qed

lemma rnd64_0: "rnd64 0 = 0"
  by (simp add: rnd64_def)

lemma rnd64_1: "rnd64 1 = 1"
  using rnd64_small [of 52 1] by (simp add: round_half_even_def)

lemma rnd64_2: "rnd64 2 = 2"
  using rnd64_small [of 51 2] by (simp add: round_half_even_def)

lemma rnd64_3: "rnd64 3 = 3"
  using rnd64_small [of 51 3] by (simp add: round_half_even_def)

lemma rnd64_e16: "rnd64 10000000000000000 = 10000000000000000"
  using rnd64_big [of 1 10000000000000000] by (simp add: round_half_even_def)

lemma rnd64_e16_1: "rnd64 10000000000000001 = 10000000000000000"
  using rnd64_big [of 1 10000000000000001] by (simp add: round_half_even_def)

lemma rnd64_e16_2: "rnd64 10000000000000002 = 10000000000000002"
  using rnd64_big [of 1 10000000000000002] by (simp add: round_half_even_def)

lemma rnd64_e16_3: "rnd64 10000000000000003 = 10000000000000004"
  using rnd64_big [of 1 10000000000000003] by (simp add: round_half_even_def)

text \<open>
  Claim C4, as stated, does not hold in binary64 arithmetic. For the class subset
  \<open>[[1e16, 1], [1, 1]]\<close>, the chromosome \<open>[0, 0]\<close> and the scale vector \<open>[1, 1]\<close> the
  terms are \<open>1e16, 1, 1, 1\<close>. The single-model fitness adds each row first, \<open>1e16 + 1\<close>
  rounding to \<open>1e16\<close>, and returns \<open>1e16 + 2\<close>; the ensemble's inline fitness adds the
  four terms in one run and returns \<open>1e16 + 4\<close> when the first term is added to the sum
  of the rest, and \<open>1e16\<close> in the plain order from left to right. The exact sum is
  \<open>1e16 + 3\<close> on both paths.
\<close>

theorem fitness_paths_differ:
  "distance_fitness_r rnd64 (np_add_reduce rnd64) [Fin 1, Fin 1] ex_big [Fin 0, Fin 0]
     = Inr (Fin 10000000000000002)
   \<and> emec_distance_fitness_r rnd64 (np_add_reduce rnd64) [Fin 1, Fin 1] ex_big [Fin 0, Fin 0]
     = Inr (Fin 10000000000000004)
   \<and> distance_fitness_r rnd64 (seq_add_reduce rnd64) [Fin 1, Fin 1] ex_big [Fin 0, Fin 0]
     = Inr (Fin 10000000000000002)
   \<and> emec_distance_fitness_r rnd64 (seq_add_reduce rnd64) [Fin 1, Fin 1] ex_big [Fin 0, Fin 0]
     = Inr (Fin 10000000000000000)
   \<and> emec_distance_fitness [Fin 1, Fin 1] ex_big [Fin 0, Fin 0] = Inr (Fin 10000000000000003)
   \<and> distance_fitness [Fin 1, Fin 1] ex_big [Fin 0, Fin 0] = Inr (Fin 10000000000000003)"
proof -
  note vals = rnd64_0 rnd64_1 rnd64_2 rnd64_3 rnd64_e16 rnd64_e16_1 rnd64_e16_2 rnd64_e16_3
  have a: "distance_fitness_r rnd64 (np_add_reduce rnd64) [Fin 1, Fin 1] ex_big [Fin 0, Fin 0]
     = Inr (Fin 10000000000000002)"
    by (simp add: distance_fitness_r_def pairwise_r_def np_add_reduce_def rounded_def
        broadcast2_def bcast_row_def np_abs_def ex_big_def vals)
  have b: "emec_distance_fitness_r rnd64 (np_add_reduce rnd64) [Fin 1, Fin 1] ex_big [Fin 0, Fin 0]
     = Inr (Fin 10000000000000004)"
    by (simp add: emec_distance_fitness_r_def np_add_reduce_def rounded_def
        broadcast2_def bcast_row_def np_abs_def ex_big_def vals)
  have c: "distance_fitness_r rnd64 (seq_add_reduce rnd64) [Fin 1, Fin 1] ex_big [Fin 0, Fin 0]
     = Inr (Fin 10000000000000002)"
    by (simp add: distance_fitness_r_def pairwise_r_def seq_add_reduce_def rounded_def
        broadcast2_def bcast_row_def np_abs_def ex_big_def vals)
  have d: "emec_distance_fitness_r rnd64 (seq_add_reduce rnd64) [Fin 1, Fin 1] ex_big [Fin 0, Fin 0]
     = Inr (Fin 10000000000000000)"
    by (simp add: emec_distance_fitness_r_def seq_add_reduce_def rounded_def
        broadcast2_def bcast_row_def np_abs_def ex_big_def vals)
  have e: "emec_distance_fitness [Fin 1, Fin 1] ex_big [Fin 0, Fin 0]
     = Inr (Fin 10000000000000003)"
    by (simp add: emec_distance_fitness_def sum_all_def fl_sum_def
        broadcast2_def bcast_row_def np_abs_def ex_big_def)
  have f: "distance_fitness [Fin 1, Fin 1] ex_big [Fin 0, Fin 0]
     = Inr (Fin 10000000000000003)"
    by (simp add: distance_fitness_def pairwise_def sum_axis1_def fl_sum_def
        broadcast2_def bcast_row_def np_abs_def ex_big_def)
  show ?thesis by (intro conjI a b c d e f)
qed

text \<open>
  Claim C4, amended. The per-row distance of the ensemble's \<^verbatim>\<open>predict\<close> is the expression
  of \<^verbatim>\<open>StoeanDistance.pairwise\<close>, operation for operation: the two are equal entrywise
  under every rounding and every order of summation, and raise the same error. The
  ensemble's inline fitness adds the terms that the single-model fitness adds; the two
  values are equal when no operation rounds.
\<close>

theorem distance_paths_agree:
  "emec_row_distance_r rnd red d X model = pairwise_r rnd red d X model
   \<and> emec_row_distance d X model = pairwise d X model
   \<and> emec_distance_fitness d X c = distance_fitness d X c
   \<and> emec_distance_fitness_r (\<lambda>x. x) (np_add_reduce (\<lambda>x. x)) d X c
       = distance_fitness_r (\<lambda>x. x) (np_add_reduce (\<lambda>x. x)) d X c"
proof -
  have red: "np_add_reduce (\<lambda>x. x) = fl_sum"
    by (intro ext) (rule np_add_reduce_exact)
  show ?thesis
    by (simp add: emec_row_distance_r_def pairwise_r_def emec_row_distance_pairwise
        emec_distance_fitness_exact red emec_distance_fitness_r_exact distance_fitness_r_exact)
qed

end
